theory Spec2Isabelle
  imports Main "HOL-Library.AList" "HOL-Library.Sublist"
begin

section \<open>Values handled by the converter\<close>

text \<open>
  The converter of \<^verbatim>\<open>twarc_csv.py\<close> works on objects decoded from JSON lines. A
  decoded value is \<^verbatim>\<open>None\<close>, a boolean, a number, a string, a list or a dict whose
  keys are strings. Numbers are modelled as integers (floating point values are left out).
  A dict is an association list read through \<open>map_of\<close>: the first pair of a key is the
  binding, later pairs of the same key are shadowed and never observed.
\<close>

datatype json =
    JNull
  | JBool bool
  | JInt int
  | JStr string
  | JArr "json list"
  | JObj "(string \<times> json) list"

type_synonym dict = "(string \<times> json) list"

datatype error = KeyError string | TypeError | NonStringKey

text \<open>\<^verbatim>\<open>k in d\<close>, \<^verbatim>\<open>d[k] = v\<close>, \<^verbatim>\<open>d.pop(k, None)\<close> and \<^verbatim>\<open>len(d.keys())\<close>.\<close>

definition dict_has :: "dict \<Rightarrow> string \<Rightarrow> bool" where
  "dict_has d k = (map_of d k \<noteq> None)"

definition dict_set :: "string \<Rightarrow> json \<Rightarrow> dict \<Rightarrow> dict" where
  "dict_set k v d = AList.update k v d"

definition dict_pop :: "string \<Rightarrow> dict \<Rightarrow> dict" where
  "dict_pop k d = AList.delete k d"

text \<open>
  The value of \<^verbatim>\<open>d.pop(k, None)\<close> and of \<^verbatim>\<open>d[k] if k in d else None\<close>.
\<close>

definition get_or_none :: "dict \<Rightarrow> string \<Rightarrow> json" where
  "get_or_none d k = (case map_of d k of None \<Rightarrow> JNull | Some v \<Rightarrow> v)"

text \<open>Elements in the order of their first occurrence, as a dict keeps its keys.\<close>

definition first_seen :: "'a list \<Rightarrow> 'a list" where
  "first_seen xs = rev (remdups (rev xs))"

definition dict_keys :: "dict \<Rightarrow> string list" where
  "dict_keys d = first_seen (map fst d)"

definition dict_len :: "dict \<Rightarrow> nat" where
  "dict_len d = length (dict_keys d)"

text \<open>Python truth value of a decoded value (\<^verbatim>\<open>not x\<close> is its negation).\<close>

fun truthy :: "json \<Rightarrow> bool" where
  "truthy JNull = False"
| "truthy (JBool b) = b"
| "truthy (JInt n) = (n \<noteq> 0)"
| "truthy (JStr s) = (s \<noteq> [])"
| "truthy (JArr xs) = (xs \<noteq> [])"
| "truthy (JObj d) = (d \<noteq> [])"

text \<open>
  \<^verbatim>\<open>for x in v\<close>: a list gives its elements, a dict its keys, a string its characters
  as one-character strings; anything else is not iterable.
\<close>

fun py_iter :: "json \<Rightarrow> error + json list" where
  "py_iter (JArr xs) = Inr xs"
| "py_iter (JObj d) = Inr (map JStr (dict_keys d))"
| "py_iter (JStr s) = Inr (map (\<lambda>c. JStr [c]) s)"
| "py_iter v = Inl TypeError"

text \<open>
  \<^verbatim>\<open>x in some_set\<close> hashes \<open>x\<close>: lists and dicts are unhashable. Python identifies
  \<^verbatim>\<open>True\<close> with \<open>1\<close> and \<^verbatim>\<open>False\<close> with \<open>0\<close> as set members, so a boolean is stored as
  that integer.
\<close>

fun hash_key :: "json \<Rightarrow> json option" where
  "hash_key (JArr xs) = None"
| "hash_key (JObj d) = None"
| "hash_key (JBool b) = Some (JInt (if b then 1 else 0))"
| "hash_key v = Some v"

section \<open>Strings\<close>

definition nl :: char where "nl = CHR 0x0A"
definition cr :: char where "cr = CHR 0x0D"
definition backslash :: char where "backslash = CHR 0x5C"

text \<open>\<^verbatim>\<open>needle in s\<close> on strings: \<open>needle\<close> occurs in \<open>s\<close> as a contiguous run.\<close>

fun starts_with :: "string \<Rightarrow> string \<Rightarrow> bool" where
  "starts_with s [] = True"
| "starts_with [] (p # ps) = False"
| "starts_with (c # s) (p # ps) = (c = p \<and> starts_with s ps)"

fun str_contains :: "string \<Rightarrow> string \<Rightarrow> bool" where
  "str_contains needle [] = (needle = [])"
| "str_contains needle (c # s) = (starts_with (c # s) needle \<or> str_contains needle s)"

text \<open>\<^verbatim>\<open>s.split(sep)\<close> for a one-character separator.\<close>

fun str_split :: "char \<Rightarrow> string \<Rightarrow> string list" where
  "str_split sep [] = [[]]"
| "str_split sep (c # s) =
     (if c = sep then [] # str_split sep s
      else (case str_split sep s of
              [] \<Rightarrow> [[c]]
            | w # ws \<Rightarrow> (c # w) # ws))"

text \<open>\<^verbatim>\<open>s.replace(old, new)\<close> for a one-character \<open>old\<close>.\<close>

definition str_replace :: "char \<Rightarrow> string \<Rightarrow> string \<Rightarrow> string" where
  "str_replace old new s = concat (map (\<lambda>c. if c = old then new else [c]) s)"

text \<open>
  A triple-quoted literal in which every line, the last one too, ends with a newline.
\<close>

definition text_lines :: "string list \<Rightarrow> string" where
  "text_lines ls = concat (map (\<lambda>l. l @ [nl]) ls)"

section \<open>Default columns\<close>

definition tweet_column_names :: "string list" where
  "tweet_column_names =
    [''id'', ''conversation_id'', ''referenced_tweets.replied_to.id'',
     ''referenced_tweets.retweeted.id'', ''referenced_tweets.quoted.id'', ''author_id'',
     ''in_reply_to_user_id'', ''retweeted_user_id'', ''quoted_user_id'', ''created_at'',
     ''text'', ''lang'', ''source'', ''public_metrics.like_count'',
     ''public_metrics.quote_count'', ''public_metrics.reply_count'',
     ''public_metrics.retweet_count'', ''reply_settings'', ''possibly_sensitive'',
     ''withheld.scope'', ''withheld.copyright'', ''withheld.country_codes'',
     ''entities.annotations'', ''entities.cashtags'', ''entities.hashtags'',
     ''entities.mentions'', ''entities.urls'', ''context_annotations'',
     ''attachments.media'', ''attachments.media_keys'',
     ''attachments.poll.duration_minutes'', ''attachments.poll.end_datetime'',
     ''attachments.poll.id'', ''attachments.poll.options'',
     ''attachments.poll.voting_status'', ''attachments.poll_ids'', ''author.id'',
     ''author.created_at'', ''author.username'', ''author.name'', ''author.description'',
     ''author.entities.description.cashtags'', ''author.entities.description.hashtags'',
     ''author.entities.description.mentions'', ''author.entities.description.urls'',
     ''author.entities.url.urls'', ''author.location'', ''author.pinned_tweet_id'',
     ''author.profile_image_url'', ''author.protected'',
     ''author.public_metrics.followers_count'', ''author.public_metrics.following_count'',
     ''author.public_metrics.listed_count'', ''author.public_metrics.tweet_count'',
     ''author.url'', ''author.verified'', ''author.withheld.scope'',
     ''author.withheld.copyright'', ''author.withheld.country_codes'',
     ''geo.coordinates.coordinates'', ''geo.coordinates.type'', ''geo.country'',
     ''geo.country_code'', ''geo.full_name'', ''geo.geo.bbox'', ''geo.geo.type'',
     ''geo.id'', ''geo.name'', ''geo.place_id'', ''geo.place_type'',
     ''__twarc.retrieved_at'', ''__twarc.url'', ''__twarc.version'']"

definition user_column_names :: "string list" where
  "user_column_names =
    [''id'', ''created_at'', ''username'', ''name'', ''description'',
     ''entities.description.cashtags'', ''entities.description.hashtags'',
     ''entities.description.mentions'', ''entities.description.urls'',
     ''entities.url.urls'', ''location'', ''pinned_tweet_id'', ''pinned_tweet'',
     ''profile_image_url'', ''protected'', ''public_metrics.followers_count'',
     ''public_metrics.following_count'', ''public_metrics.listed_count'',
     ''public_metrics.tweet_count'', ''url'', ''verified'', ''withheld.scope'',
     ''withheld.copyright'', ''withheld.country_codes'', ''__twarc.retrieved_at'',
     ''__twarc.url'', ''__twarc.version'']"

definition compliance_column_names :: "string list" where
  "compliance_column_names =
    [''id'', ''action'', ''created_at'', ''redacted_at'', ''reason'']"

definition counts_column_names :: "string list" where
  "counts_column_names = [''start'', ''end'', ''count'']"

text \<open>
  The first three constants are the literal split at newlines. The fourth is the
  literal itself: the source does not split it.
\<close>

definition DEFAULT_TWEET_COLUMNS :: "string list" where
  "DEFAULT_TWEET_COLUMNS = str_split nl (text_lines tweet_column_names)"

definition DEFAULT_USER_COLUMNS :: "string list" where
  "DEFAULT_USER_COLUMNS = str_split nl (text_lines user_column_names)"

definition DEFAULT_COMPLIANCE_COLUMNS :: "string list" where
  "DEFAULT_COMPLIANCE_COLUMNS = str_split nl (text_lines compliance_column_names)"

definition DEFAULT_COUNTS_COLUMNS :: string where
  "DEFAULT_COUNTS_COLUMNS = text_lines counts_column_names"

section \<open>The converter and its constructor\<close>

record counters =
  lines :: int
  tweets :: int
  referenced_tweets :: int
  retweets :: int
  quotes :: int
  replies :: int
  unavailable :: int
  non_tweets :: int
  parse_errors :: int
  duplicates :: int
  rows :: int
  input_columns :: int
  output_columns_count :: int

record converter =
  json_encode_all :: bool
  json_encode_text :: bool
  json_encode_lists :: bool
  inline_referenced_tweets :: bool
  merge_retweets :: bool
  allow_duplicates :: bool
  columns :: "string list"
  output_columns :: "string list"
  dataset_ids :: "json set"
  counts :: counters

text \<open>
  \<^verbatim>\<open>self.columns.extend(x for x in xs if x not in self.columns)\<close>: the generator is
  consumed while the list grows, so the test sees the elements appended so far.
\<close>

definition extend_new :: "string list \<Rightarrow> string list \<Rightarrow> string list" where
  "extend_new cols xs = foldl (\<lambda>acc x. if x \<in> set acc then acc else acc @ [x]) cols xs"

text \<open>Iterating over a string gives its characters as one-character strings.\<close>

definition chars_of :: "string \<Rightarrow> string list" where
  "chars_of s = map (\<lambda>c. [c]) s"

definition init_columns :: "string \<Rightarrow> string \<Rightarrow> string list" where
  "init_columns input_data_type extra_input_columns =
    (let c0 = [];
         c1 = (if str_contains ''tweets'' input_data_type
               then extend_new c0 DEFAULT_TWEET_COLUMNS else c0);
         c2 = (if str_contains ''users'' input_data_type
               then extend_new c1 DEFAULT_USER_COLUMNS else c1);
         c3 = (if str_contains ''compliance'' input_data_type
               then extend_new c2 DEFAULT_COMPLIANCE_COLUMNS else c2);
         c4 = (if str_contains ''counts'' input_data_type
               then extend_new c3 (chars_of DEFAULT_COUNTS_COLUMNS) else c3);
         c5 = (if extra_input_columns \<noteq> []
               then extend_new c4 (str_split (CHR '','') extra_input_columns) else c4)
     in c5)"

definition init_counts :: "string list \<Rightarrow> string \<Rightarrow> counters" where
  "init_counts cols output_columns_arg =
    \<lparr> lines = 0, tweets = 0, referenced_tweets = 0, retweets = 0, quotes = 0,
      replies = 0, unavailable = 0, non_tweets = 0, parse_errors = 0, duplicates = 0,
      rows = 0, input_columns = int (length cols),
      output_columns_count = int (length output_columns_arg) \<rparr>"

definition DataFrameConverter ::
  "string \<Rightarrow> bool \<Rightarrow> bool \<Rightarrow> bool \<Rightarrow> bool \<Rightarrow> bool \<Rightarrow> bool \<Rightarrow> string \<Rightarrow> string
     \<Rightarrow> json set option \<Rightarrow> counters option \<Rightarrow> converter" where
  "DataFrameConverter input_data_type enc_all enc_text enc_lists inline merge allow_dup
       extra_input_columns output_columns_arg ids_arg counts_arg =
    (let cols = init_columns input_data_type extra_input_columns in
     \<lparr> json_encode_all = enc_all,
       json_encode_text = enc_text,
       json_encode_lists = enc_lists,
       inline_referenced_tweets = inline,
       merge_retweets = merge,
       allow_duplicates = allow_dup,
       columns = cols,
       output_columns = (if output_columns_arg \<noteq> []
                         then str_split (CHR '','') output_columns_arg else cols),
       dataset_ids = (case ids_arg of None \<Rightarrow> {} | Some s \<Rightarrow> s),
       counts = (case counts_arg of None \<Rightarrow> init_counts cols output_columns_arg
                 | Some c \<Rightarrow> c) \<rparr>)"

section \<open>Normalizing one record\<close>

text \<open>
  \<^verbatim>\<open>[t for t in tweet["referenced_tweets"] if t["type"] == kind]\<close>. The subscript
  \<^verbatim>\<open>t["type"]\<close> raises a \<^verbatim>\<open>KeyError\<close> on a dict without that key and a
  \<^verbatim>\<open>TypeError\<close> on anything that is not a dict; the first entry that fails ends the
  comprehension.
\<close>

fun select_type :: "string \<Rightarrow> json list \<Rightarrow> error + dict list" where
  "select_type kind [] = Inr []"
| "select_type kind (t # ts) =
     (case t of
        JObj d \<Rightarrow>
          (case map_of d ''type'' of
             None \<Rightarrow> Inl (KeyError ''type'')
           | Some ty \<Rightarrow>
               (case select_type kind ts of
                  Inl e \<Rightarrow> Inl e
                | Inr ds \<Rightarrow> Inr (if ty = JStr kind then d # ds else ds)))
      | _ \<Rightarrow> Inl TypeError)"

text \<open>\<^verbatim>\<open>xs[-1] if xs else None\<close>\<close>

definition last_or_none :: "'a list \<Rightarrow> 'a option" where
  "last_or_none xs = (if xs = [] then None else Some (last xs))"

text \<open>
  \<^verbatim>\<open>if target and "author_id" in target: tweet[field] = target["author_id"]\<close>
\<close>

definition set_user_id :: "string \<Rightarrow> dict option \<Rightarrow> dict \<Rightarrow> dict" where
  "set_user_id field target tweet =
     (case target of
        None \<Rightarrow> tweet
      | Some d \<Rightarrow>
          (if d \<noteq> [] \<and> dict_has d ''author_id''
           then dict_set field (get_or_none d ''author_id'') tweet
           else tweet))"

text \<open>
  The five assignments of the merge. Each value is popped from the retweeted entry of
  the copy; the entry is read afterwards only at \<^verbatim>\<open>type\<close> and \<^verbatim>\<open>id\<close>, which are
  not popped, so the shortened entry itself is not kept in the model.
\<close>

definition merge_retweet :: "dict \<Rightarrow> dict \<Rightarrow> dict" where
  "merge_retweet rt tweet =
     dict_set ''public_metrics'' (get_or_none rt ''public_metrics'')
       (dict_set ''context_annotations'' (get_or_none rt ''context_annotations'')
          (dict_set ''attachments'' (get_or_none rt ''attachments'')
             (dict_set ''entities'' (get_or_none rt ''entities'')
                (dict_set ''text'' (get_or_none rt ''text'') tweet))))"

text \<open>
  \<^verbatim>\<open>[{r["type"]: {"id": r["id"]}} for r in tweet["referenced_tweets"]]\<close>. A list or a
  dict as relation kind is unhashable. Any other kind that is not a string would become
  a key that is not a string, which type \<open>dict\<close> cannot hold: the model stops there with
  \<open>NonStringKey\<close>, and nothing is stated about such records.
\<close>

fun reference_entries :: "json list \<Rightarrow> error + dict list" where
  "reference_entries [] = Inr []"
| "reference_entries (r # rs) =
     (case r of
        JObj d \<Rightarrow>
          (case map_of d ''type'' of
             None \<Rightarrow> Inl (KeyError ''type'')
           | Some ty \<Rightarrow>
               (case map_of d ''id'' of
                  None \<Rightarrow> Inl (KeyError ''id'')
                | Some i \<Rightarrow>
                    (case ty of
                       JStr k \<Rightarrow>
                         (case reference_entries rs of
                            Inl e \<Rightarrow> Inl e
                          | Inr ms \<Rightarrow> Inr ([(k, JObj [(''id'', i)])] # ms))
                     | JArr xs \<Rightarrow> Inl TypeError
                     | JObj x \<Rightarrow> Inl TypeError
                     | _ \<Rightarrow> Inl NonStringKey)))
      | _ \<Rightarrow> Inl TypeError)"

text \<open>
  \<^verbatim>\<open>dict(ChainMap(*maps))\<close>: the keys are collected from the last map to the first, and
  each key is looked up in the maps from the first to the last, so the first map that
  has a key gives its value.
\<close>

definition chainmap_dict :: "dict list \<Rightarrow> dict" where
  "chainmap_dict maps =
     List.map_filter (\<lambda>k. map_option (Pair k) (map_of (concat maps) k))
       (first_seen (concat (map dict_keys (rev maps))))"

text \<open>\<^verbatim>\<open>if k in tweet and not tweet[k]: tweet.pop(k, None)\<close>\<close>

definition drop_if_empty :: "string \<Rightarrow> dict \<Rightarrow> dict" where
  "drop_if_empty k d =
     (case map_of d k of
        None \<Rightarrow> d
      | Some v \<Rightarrow> (if \<not> truthy v then dict_pop k d else d))"

text \<open>
  The tail of \<^verbatim>\<open>_format_tweet\<close>: drop \<^verbatim>\<open>type\<close>, then the three empty objects.
\<close>

definition finish_tweet :: "dict \<Rightarrow> dict" where
  "finish_tweet tweet =
     drop_if_empty ''public_metrics''
       (drop_if_empty ''entities''
          (drop_if_empty ''attachments'' (dict_pop ''type'' tweet)))"

text \<open>
  \<^verbatim>\<open>_format_tweet\<close>. The deep copy makes the method a function of its argument: the
  argument is a value here, and the result is a new value.
\<close>

definition format_tweet :: "converter \<Rightarrow> dict \<Rightarrow> error + dict" where
  "format_tweet self tweet0 =
     (let tweet1 = dict_pop ''in_reply_to_user'' (dict_pop ''pinned_tweet'' tweet0) in
      (case map_of tweet1 ''referenced_tweets'' of
         None \<Rightarrow> Inr (finish_tweet (dict_set ''referenced_tweets'' (JObj []) tweet1))
       | Some refs \<Rightarrow>
          (case py_iter refs of
             Inl e \<Rightarrow> Inl e
           | Inr rs \<Rightarrow>
              (case select_type ''retweeted'' rs of
                 Inl e \<Rightarrow> Inl e
               | Inr rts \<Rightarrow>
                  (case select_type ''quoted'' rs of
                     Inl e \<Rightarrow> Inl e
                   | Inr qts \<Rightarrow>
                      (let retweeted_tweet = last_or_none rts;
                           tweet2 = set_user_id ''retweeted_user_id'' retweeted_tweet tweet1;
                           quoted_tweet = last_or_none qts;
                           tweet3 = set_user_id ''quoted_user_id'' quoted_tweet tweet2;
                           tweet4 = (case retweeted_tweet of
                                       None \<Rightarrow> tweet3
                                     | Some rt \<Rightarrow>
                                         (if rt \<noteq> [] \<and> merge_retweets self
                                          then merge_retweet rt tweet3 else tweet3))
                       in (case reference_entries rs of
                             Inl e \<Rightarrow> Inl e
                           | Inr maps \<Rightarrow>
                               Inr (finish_tweet
                                      (dict_set ''referenced_tweets''
                                         (JObj (chainmap_dict maps)) tweet4)))))))))"

section \<open>Reference expansion\<close>

text \<open>
  \<^verbatim>\<open>_inline_referenced_tweets\<close> is a generator that also writes into its argument:
  every entry of the reference list gets the key \<^verbatim>\<open>__twarc\<close>, and the entries belong to
  the caller's record. The model returns the rows in the order they are yielded, the
  caller's record as the generator leaves it, and the converter with its counters. An
  exception leaves \<^verbatim>\<open>process\<close> uncaught, so an error carries no state.
\<close>

fun inline_loop ::
  "converter \<Rightarrow> json \<Rightarrow> json list \<Rightarrow> error + (dict list \<times> json list \<times> converter)" where
  "inline_loop self twarc [] = Inr ([], [], self)"
| "inline_loop self twarc (r # rs) =
     (let self1 = self\<lparr>counts := (counts self)
                    \<lparr>referenced_tweets := referenced_tweets (counts self) + 1\<rparr>\<rparr> in
      (case r of
         JObj d \<Rightarrow>
           (let referenced_tweet = dict_set ''__twarc'' twarc d in
            if dict_len referenced_tweet > 3
            then (case format_tweet self1 referenced_tweet of
                    Inl e \<Rightarrow> Inl e
                  | Inr row \<Rightarrow>
                      (case inline_loop self1 twarc rs of
                         Inl e \<Rightarrow> Inl e
                       | Inr (out, rs', self2) \<Rightarrow>
                           Inr (row # out, JObj referenced_tweet # rs', self2)))
            else (case inline_loop
                         (self1\<lparr>counts := (counts self1)
                            \<lparr>unavailable := unavailable (counts self1) + 1\<rparr>\<rparr>) twarc rs of
                    Inl e \<Rightarrow> Inl e
                  | Inr (out, rs', self2) \<Rightarrow>
                      Inr (out, JObj referenced_tweet # rs', self2)))
       | _ \<Rightarrow> Inl TypeError))"

text \<open>
  Only the elements of a list can be written to; iterating over a dict or a string
  gives strings, on which the assignment raises. An empty dict or string is left as it is.
\<close>

definition store_entries :: "json \<Rightarrow> json list \<Rightarrow> json" where
  "store_entries refs rs' = (case refs of JArr xs \<Rightarrow> JArr rs' | _ \<Rightarrow> refs)"

definition do_inline_referenced_tweets ::
  "converter \<Rightarrow> dict \<Rightarrow> error + (dict list \<times> dict \<times> converter)" where
  "do_inline_referenced_tweets self tweet =
     (if dict_has tweet ''referenced_tweets'' \<and> inline_referenced_tweets self
      then (case py_iter (get_or_none tweet ''referenced_tweets'') of
              Inl e \<Rightarrow> Inl e
            | Inr rs \<Rightarrow>
               (case inline_loop self (get_or_none tweet ''__twarc'') rs of
                  Inl e \<Rightarrow> Inl e
                | Inr (out, rs', self') \<Rightarrow>
                   (let tweet' = dict_set ''referenced_tweets''
                                   (store_entries (get_or_none tweet ''referenced_tweets'') rs')
                                   tweet in
                    case format_tweet self' tweet' of
                      Inl e \<Rightarrow> Inl e
                    | Inr row \<Rightarrow> Inr (out @ [row], tweet', self'))))
      else (case format_tweet self tweet of
              Inl e \<Rightarrow> Inl e
            | Inr row \<Rightarrow> Inr ([row], tweet, self)))"

section \<open>Deduplication\<close>

text \<open>
  \<^verbatim>\<open>_process_tweets\<close>: the rows it yields and the converter afterwards. The membership
  test hashes the identifier, which raises on a list or a dict.
\<close>

definition bump_tweets :: "converter \<Rightarrow> converter" where
  "bump_tweets self = self\<lparr>counts := (counts self)\<lparr>tweets := tweets (counts self) + 1\<rparr>\<rparr>"

definition bump_duplicates :: "converter \<Rightarrow> converter" where
  "bump_duplicates self =
     self\<lparr>counts := (counts self)\<lparr>duplicates := duplicates (counts self) + 1\<rparr>\<rparr>"

definition bump_non_tweets :: "converter \<Rightarrow> converter" where
  "bump_non_tweets self =
     self\<lparr>counts := (counts self)\<lparr>non_tweets := non_tweets (counts self) + 1\<rparr>\<rparr>"

fun process_tweets :: "converter \<Rightarrow> dict list \<Rightarrow> error + (dict list \<times> converter)" where
  "process_tweets self [] = Inr ([], self)"
| "process_tweets self (tweet # rest) =
     (case map_of tweet ''id'' of
        None \<Rightarrow> process_tweets (bump_non_tweets self) rest
      | Some tweet_id \<Rightarrow>
          (case hash_key tweet_id of
             None \<Rightarrow> Inl TypeError
           | Some k \<Rightarrow>
               (let self1 = bump_tweets self;
                    self2 = (if k \<in> dataset_ids self1 then bump_duplicates self1 else self1);
                    yielded = (if allow_duplicates self2 then [tweet]
                               else if k \<notin> dataset_ids self2 then [tweet] else []);
                    self3 = self2\<lparr>dataset_ids := insert k (dataset_ids self2)\<rparr>
                in (case process_tweets self3 rest of
                      Inl e \<Rightarrow> Inl e
                    | Inr (later, self') \<Rightarrow> Inr (yielded @ later, self')))))"

section \<open>Tables\<close>

text \<open>
  A DataFrame is its column labels and its rows, each row a list of cells in the order of
  the labels. A cell is the missing-value marker or a value.
\<close>

datatype cell = NaN | Val json

record dataframe =
  df_columns :: "string list"
  df_rows :: "cell list list"

text \<open>
  Three functions come from outside the source file: twarc's \<^verbatim>\<open>ensure_flattened\<close>,
  pandas' \<^verbatim>\<open>json_normalize\<close> and \<^verbatim>\<open>json.dumps\<close>. The converter is modelled over any
  three such functions.
\<close>

record externals =
  ensure_flattened :: "json \<Rightarrow> dict list"
  json_normalize :: "dict list \<Rightarrow> dataframe"
  json_dumps :: "json \<Rightarrow> string"




text \<open>
  \<^verbatim>\<open>_df.applymap(f, na_action="ignore")\<close>: the marker and \<^verbatim>\<open>None\<close> are both missing
  values for pandas and are not passed to \<open>f\<close>.
\<close>

fun apply_cell :: "(json \<Rightarrow> json) \<Rightarrow> cell \<Rightarrow> cell" where
  "apply_cell f NaN = NaN"
| "apply_cell f (Val JNull) = Val JNull"
| "apply_cell f (Val v) = Val (f v)"

definition applymap :: "(json \<Rightarrow> json) \<Rightarrow> dataframe \<Rightarrow> dataframe" where
  "applymap f df = df\<lparr>df_rows := map (map (apply_cell f)) (df_rows df)\<rparr>"

text \<open>
  \<^verbatim>\<open>x.replace("\r", "").replace("\n", r"\n")\<close>, where the raw string is a backslash
  followed by the letter n.
\<close>

definition escape_newlines :: "string \<Rightarrow> string" where
  "escape_newlines x = str_replace nl [backslash, CHR ''n''] (str_replace cr [] x)"

fun is_str :: "json \<Rightarrow> bool" where
  "is_str (JStr s) = True"
| "is_str v = False"

text \<open>\<^verbatim>\<open>pd.api.types.is_list_like\<close> on decoded values: lists and dicts.\<close>

fun is_list_like :: "json \<Rightarrow> bool" where
  "is_list_like (JArr xs) = True"
| "is_list_like (JObj d) = True"
| "is_list_like v = False"

definition encode_text :: "(json \<Rightarrow> string) \<Rightarrow> json \<Rightarrow> json" where
  "encode_text dumps x = (if is_str x then JStr (dumps x) else x)"

fun escape_text :: "json \<Rightarrow> json" where
  "escape_text (JStr s) = JStr (escape_newlines s)"
| "escape_text v = v"

definition encode_list :: "(json \<Rightarrow> string) \<Rightarrow> json \<Rightarrow> json" where
  "encode_list dumps x = (if is_list_like x then JStr (dumps x) else x)"

definition process_dataframe :: "externals \<Rightarrow> converter \<Rightarrow> dataframe \<Rightarrow> dataframe" where
  "process_dataframe ext self df =
     (if json_encode_all self then applymap (\<lambda>x. JStr (json_dumps ext x)) df
      else
        (let df1 = (if json_encode_text self then applymap (encode_text (json_dumps ext)) df
                    else applymap escape_text df)
         in if json_encode_lists self then applymap (encode_list (json_dumps ext)) df1
            else df1))"

section \<open>Processing a batch\<close>



text \<open>
  The message written to the terminal and to the log when a batch is rejected: the
  unexpected labels (a Python set, so their order in the message is not fixed), the
  number of expected columns, the number of columns found and the number of rows skipped.
\<close>

datatype diagnostic = UnexpectedData "string list" nat nat nat

fun diagnostic_keys :: "diagnostic \<Rightarrow> string list" where
  "diagnostic_keys (UnexpectedData ks expected got skipped) = ks"


section \<open>An instance of the external functions\<close>

text \<open>
  For evaluating the converter on concrete batches: a decoded dict is taken as one
  flattened record, nested dicts are replaced by their entries under dot-joined
  key-paths, the labels of the table are the key-paths in the order they are first seen,
  and serialization is a fixed placeholder.
\<close>

fun flatten_value :: "string \<Rightarrow> json \<Rightarrow> dict" where
  "flatten_value key (JObj d) =
     concat (map (\<lambda>p. flatten_value (key @ ''.'' @ fst p) (snd p)) d)"
| "flatten_value key v = [(key, v)]"

definition flatten_record :: "dict \<Rightarrow> dict" where
  "flatten_record d = concat (map (\<lambda>p. flatten_value (fst p) (snd p)) d)"

definition cell_of :: "dict \<Rightarrow> string \<Rightarrow> cell" where
  "cell_of d c = (case map_of d c of None \<Rightarrow> NaN | Some v \<Rightarrow> Val v)"

definition normalize_records :: "dict list \<Rightarrow> dataframe" where
  "normalize_records ds =
     (let flat = map flatten_record ds;
          cols = first_seen (concat (map (map fst) flat))
      in \<lparr> df_columns = cols, df_rows = map (\<lambda>d. map (cell_of d) cols) flat \<rparr>)"

fun one_record :: "json \<Rightarrow> dict list" where
  "one_record (JObj d) = [d]"
| "one_record v = []"

definition sample_externals :: externals where
  "sample_externals =
     \<lparr> ensure_flattened = one_record,
       json_normalize = normalize_records,
       json_dumps = (\<lambda>v. ''<json>'') \<rparr>"

text \<open>The converter as the command line builds it by default, for a given input kind.\<close>

definition default_converter :: "string \<Rightarrow> converter" where
  "default_converter kind =
     DataFrameConverter kind False False True False True False [] [] None None"


section \<open>Notions used in the statements\<close>



text \<open>
  The identifier of a record as the identifier set stores it, when the record has one
  that can be hashed.
\<close>

definition id_key :: "dict \<Rightarrow> json option" where
  "id_key t = (case map_of t ''id'' of None \<Rightarrow> None | Some v \<Rightarrow> hash_key v)"

text \<open>The identifiers carried by the records of a list.\<close>

fun seen_ids :: "dict list \<Rightarrow> json set" where
  "seen_ids [] = {}"
| "seen_ids (t # ts) = (case id_key t of None \<Rightarrow> {} | Some k \<Rightarrow> {k}) \<union> seen_ids ts"

text \<open>
  Position \<open>i\<close> of the input holds the first occurrence of an identifier that the set
  did not have at the start; position \<open>i\<close> holds an identifier that is in the set when
  the record is reached, because the set had it at the start or because an earlier
  position of the input carries it.
\<close>

definition first_new :: "json set \<Rightarrow> dict list \<Rightarrow> nat \<Rightarrow> bool" where
  "first_new ids ts i =
     (case id_key (ts ! i) of
        None \<Rightarrow> False
      | Some k \<Rightarrow> k \<notin> ids \<and> k \<notin> seen_ids (take i ts))"

definition repeated :: "json set \<Rightarrow> dict list \<Rightarrow> nat \<Rightarrow> bool" where
  "repeated ids ts i =
     (case id_key (ts ! i) of
        None \<Rightarrow> False
      | Some k \<Rightarrow> k \<in> ids \<or> k \<in> seen_ids (take i ts))"

text \<open>
  An entry of a reference list as twarc's flattening produces it: a dict with a relation
  kind that is a string and with an identifier. On such entries \<^verbatim>\<open>_format_tweet\<close>
  raises nothing.
\<close>

fun ref_ok :: "json \<Rightarrow> bool" where
  "ref_ok (JObj d) =
     (case map_of d ''type'' of
        Some (JStr k) \<Rightarrow> dict_has d ''id''
      | _ \<Rightarrow> False)"
| "ref_ok v = False"

fun has_kind :: "string \<Rightarrow> json \<Rightarrow> bool" where
  "has_kind kind (JObj d) = (map_of d ''type'' = Some (JStr kind))"
| "has_kind kind v = False"

text \<open>
  What the closing step of \<^verbatim>\<open>_format_tweet\<close> leaves of \<^verbatim>\<open>attachments\<close>,
  \<^verbatim>\<open>entities\<close> and \<^verbatim>\<open>public_metrics\<close>: the field as it is when its value is
  truthy, no field otherwise.
\<close>

fun kept_if_nonempty :: "json option \<Rightarrow> json option" where
  "kept_if_nonempty None = None"
| "kept_if_nonempty (Some v) = (if truthy v then Some v else None)"

text \<open>
  A record that \<^verbatim>\<open>_format_tweet\<close> accepts: it has no reference list, or a list of
  well-formed entries. An entry that can be expanded into a row of its own is a dict that
  is such a record.
\<close>

definition refs_ok :: "dict \<Rightarrow> bool" where
  "refs_ok t =
     (case map_of t ''referenced_tweets'' of
        None \<Rightarrow> True
      | Some (JArr rs) \<Rightarrow> list_all ref_ok rs
      | Some v \<Rightarrow> False)"

fun entry_ok :: "json \<Rightarrow> bool" where
  "entry_ok (JObj d) = refs_ok d"
| "entry_ok v = False"

text \<open>
  The candidate rows of an expansion: each entry of the reference list with the key
  \<^verbatim>\<open>__twarc\<close> set to the retrieval metadata of the parent.
\<close>

fun entry_dict :: "json \<Rightarrow> dict" where
  "entry_dict (JObj d) = d"
| "entry_dict v = []"

definition candidates :: "json \<Rightarrow> json list \<Rightarrow> dict list" where
  "candidates twarc rs = map (\<lambda>r. dict_set ''__twarc'' twarc (entry_dict r)) rs"


text \<open>What \<^verbatim>\<open>_process_dataframe\<close> does to one cell.\<close>

definition encode_cell :: "externals \<Rightarrow> converter \<Rightarrow> cell \<Rightarrow> cell" where
  "encode_cell ext self c =
     (if json_encode_all self then apply_cell (\<lambda>x. JStr (json_dumps ext x)) c
      else
        (let c1 = (if json_encode_text self then apply_cell (encode_text (json_dumps ext)) c
                   else apply_cell escape_text c)
         in if json_encode_lists self then apply_cell (encode_list (json_dumps ext)) c1
            else c1))"

text \<open>The records that reach \<^verbatim>\<open>json_normalize\<close>, when no exception was raised.\<close>

fun batch_of :: "error + (dict list \<times> converter) \<Rightarrow> dict list option" where
  "batch_of (Inr (batch, s)) = Some batch"
| "batch_of (Inl e) = None"

section \<open>Facts about strings and the constructor\<close>

lemma str_split_nonempty: "str_split sep s \<noteq> []"
  by (induction s) (auto split: list.splits)





lemma set_extend_new: "set (extend_new cols xs) = set cols \<union> set xs"
  unfolding extend_new_def
  by (induction xs arbitrary: cols) auto

lemma distinct_extend_new: "distinct cols \<Longrightarrow> distinct (extend_new cols xs)"
  unfolding extend_new_def
  by (induction xs arbitrary: cols) auto





section \<open>The converter keeps its configuration\<close>


lemma format_tweet_config: "merge_retweets s' = merge_retweets s \<Longrightarrow> format_tweet s' t = format_tweet s t"
  by (auto simp: format_tweet_def Let_def split: option.splits sum.splits)









section \<open>Columns of a new converter\<close>














text \<open>
  Claim C9. The claim says that the input kind \<^verbatim>\<open>counts\<close> contributes the columns
  \<^verbatim>\<open>start\<close>, \<^verbatim>\<open>end\<close>, \<^verbatim>\<open>count\<close>. The literal for that kind is not split, unlike
  the three others, so the constructor iterates over its characters: the columns are the
  eleven distinct characters of the literal in the order they first occur, the newline
  among them. For \<^verbatim>\<open>compliance\<close>, whose literal is split, the columns are the listed
  names (followed by the empty name).
\<close>

theorem counts_columns_are_characters:
  "columns (default_converter ''counts'') =
     [''s'', ''t'', ''a'', ''r'', [nl], ''e'', ''n'', ''d'', ''c'', ''o'', ''u'']
   \<and> columns (default_converter ''counts'') \<noteq> counts_column_names
   \<and> columns (default_converter ''compliance'') = compliance_column_names @ [[]]"
  by code_simp

section \<open>Deduplication keeps the first occurrence\<close>

lemma process_tweets_Cons_cases:
  assumes "process_tweets s (t # ts) = Inr (out, s')"
  obtains (no_id) "map_of t ''id'' = None" "id_key t = None"
      "process_tweets (bump_non_tweets s) ts = Inr (out, s')"
  | (with_id) k later s3 where "map_of t ''id'' \<noteq> None" "id_key t = Some k"
      "process_tweets s3 ts = Inr (later, s')"
      "out = (if allow_duplicates s \<or> k \<notin> dataset_ids s then [t] else []) @ later"
      "dataset_ids s3 = insert k (dataset_ids s)"
      "allow_duplicates s3 = allow_duplicates s"
      "duplicates (counts s3) = duplicates (counts s) + (if k \<in> dataset_ids s then 1 else 0)"
proof (cases "map_of t ''id''")
  case None
  with assms have "process_tweets (bump_non_tweets s) ts = Inr (out, s')" by simp
  with None show ?thesis by (intro no_id) (simp_all add: id_key_def)
next
  case (Some v)
  with assms obtain k where k: "hash_key v = Some k"
    by (cases "hash_key v") simp_all
  let ?s1 = "bump_tweets s"
  let ?s2 = "if k \<in> dataset_ids ?s1 then bump_duplicates ?s1 else ?s1"
  let ?s3 = "?s2\<lparr>dataset_ids := insert k (dataset_ids ?s2)\<rparr>"
  from assms Some k obtain later where
    l: "process_tweets ?s3 ts = Inr (later, s')"
       "out = (if allow_duplicates ?s2 then [t] else if k \<notin> dataset_ids ?s2 then [t] else []) @ later"
    by (auto simp: Let_def split: sum.splits prod.splits)
  have f: "dataset_ids ?s2 = dataset_ids s" "allow_duplicates ?s2 = allow_duplicates s"
    "duplicates (counts ?s2) = duplicates (counts s) + (if k \<in> dataset_ids s then 1 else 0)"
    by (simp_all add: bump_tweets_def bump_duplicates_def)
  show ?thesis
  proof (rule with_id[of k ?s3 later])
    show "map_of t ''id'' \<noteq> None" using Some by simp
    show "id_key t = Some k" using Some k by (simp add: id_key_def)
    show "process_tweets ?s3 ts = Inr (later, s')" by (rule l(1))
    show "out = (if allow_duplicates s \<or> k \<notin> dataset_ids s then [t] else []) @ later"
      using l(2) f by auto
    show "dataset_ids ?s3 = insert k (dataset_ids s)" using f by simp
    show "allow_duplicates ?s3 = allow_duplicates s" using f by simp
    show "duplicates (counts ?s3) = duplicates (counts s) + (if k \<in> dataset_ids s then 1 else 0)"
      using f by simp
  qed
qed

lemma allow_duplicates_bump_non_tweets [simp]:
  "allow_duplicates (bump_non_tweets s) = allow_duplicates s"
  "dataset_ids (bump_non_tweets s) = dataset_ids s"
  "duplicates (counts (bump_non_tweets s)) = duplicates (counts s)"
  by (simp_all add: bump_non_tweets_def)

lemma process_tweets_total:
  "\<forall>t\<in>set ts. dict_has t ''id'' \<longrightarrow> id_key t \<noteq> None
     \<Longrightarrow> \<exists>out s'. process_tweets s ts = Inr (out, s')"
proof (induction ts arbitrary: s)
  case Nil
  show ?case by simp
next
  case (Cons t ts)
  show ?case
  proof (cases "map_of t ''id''")
    case None
    with Cons.IH[of "bump_non_tweets s"] Cons.prems show ?thesis by simp
  next
    case (Some v)
    with Cons.prems obtain k where k: "hash_key v = Some k"
      by (auto simp: dict_has_def id_key_def)
    let ?s1 = "bump_tweets s"
    let ?s2 = "if k \<in> dataset_ids ?s1 then bump_duplicates ?s1 else ?s1"
    let ?s3 = "?s2\<lparr>dataset_ids := insert k (dataset_ids ?s2)\<rparr>"
    from Cons.IH[of ?s3] Cons.prems obtain later s' where
      "process_tweets ?s3 ts = Inr (later, s')" by auto
    with Some k show ?thesis by (simp add: Let_def)
  qed
qed

lemma process_tweets_ids:
  "process_tweets s ts = Inr (out, s') \<Longrightarrow> dataset_ids s' = dataset_ids s \<union> seen_ids ts"
proof (induction ts arbitrary: s out)
  case Nil
  then show ?case by simp
next
  case (Cons t ts)
  from Cons.prems show ?case
  proof (cases rule: process_tweets_Cons_cases)
    case no_id
    with Cons.IH[OF no_id(3)] show ?thesis by simp
  next
    case (with_id k later s3)
    with Cons.IH[OF with_id(3)] show ?thesis by auto
  qed
qed

lemma process_tweets_allow:
  "process_tweets s ts = Inr (out, s') \<Longrightarrow> allow_duplicates s
     \<Longrightarrow> out = filter (\<lambda>t. dict_has t ''id'') ts"
proof (induction ts arbitrary: s out)
  case Nil
  then show ?case by simp
next
  case (Cons t ts)
  from Cons.prems(1) show ?case
  proof (cases rule: process_tweets_Cons_cases)
    case no_id
    with Cons.IH[OF no_id(3)] Cons.prems(2) show ?thesis by (simp add: dict_has_def)
  next
    case (with_id k later s3)
    with Cons.IH[OF with_id(3)] Cons.prems(2) show ?thesis by (simp add: dict_has_def)
  qed
qed

lemma filter_upt_Suc:
  "filter P [0..<Suc n] = (if P 0 then [0] else []) @ map Suc (filter (\<lambda>i. P (Suc i)) [0..<n])"
proof -
  have "[0..<Suc n] = 0 # map Suc [0..<n]"
    by (simp add: upt_conv_Cons map_Suc_upt del: upt_Suc)
  then show ?thesis by (simp add: filter_map comp_def del: upt_Suc)
qed

lemma first_new_Suc:
  "first_new ids (t # ts) (Suc i) =
     first_new (ids \<union> (case id_key t of None \<Rightarrow> {} | Some k \<Rightarrow> {k})) ts i"
  by (auto simp: first_new_def split: option.splits)

lemma repeated_Suc:
  "repeated ids (t # ts) (Suc i) =
     repeated (ids \<union> (case id_key t of None \<Rightarrow> {} | Some k \<Rightarrow> {k})) ts i"
  by (auto simp: repeated_def split: option.splits)

lemma process_tweets_kept:
  "process_tweets s ts = Inr (out, s') \<Longrightarrow> \<not> allow_duplicates s
     \<Longrightarrow> out = map ((!) ts) (filter (first_new (dataset_ids s) ts) [0..<length ts])"
proof (induction ts arbitrary: s out)
  case Nil
  then show ?case by simp
next
  case (Cons t ts)
  have m: "map ((!) (t # ts)) (map Suc js) = map ((!) ts) js" for js by simp
  from Cons.prems(1) show ?case
  proof (cases rule: process_tweets_Cons_cases)
    case no_id
    from Cons.IH[OF no_id(3)] Cons.prems(2)
    have "out = map ((!) ts) (filter (first_new (dataset_ids s) ts) [0..<length ts])" by simp
    moreover have "\<not> first_new (dataset_ids s) (t # ts) 0"
      using no_id(2) by (simp add: first_new_def)
    ultimately show ?thesis
      using no_id(2) by (simp add: filter_upt_Suc first_new_Suc m del: upt_Suc map_map)
  next
    case (with_id k later s3)
    from Cons.IH[OF with_id(3)] Cons.prems(2) with_id(5,6)
    have "later = map ((!) ts) (filter (first_new (insert k (dataset_ids s)) ts) [0..<length ts])"
      by simp
    moreover have "first_new (dataset_ids s) (t # ts) 0 \<longleftrightarrow> k \<notin> dataset_ids s"
      using with_id(2) by (simp add: first_new_def)
    ultimately show ?thesis
      using with_id(2,4) Cons.prems(2)
      by (simp add: filter_upt_Suc first_new_Suc m del: upt_Suc map_map)
  qed
qed

lemma process_tweets_duplicates:
  "process_tweets s ts = Inr (out, s')
     \<Longrightarrow> duplicates (counts s') = duplicates (counts s)
           + int (length (filter (repeated (dataset_ids s) ts) [0..<length ts]))"
proof (induction ts arbitrary: s out)
  case Nil
  then show ?case by simp
next
  case (Cons t ts)
  from Cons.prems(1) show ?case
  proof (cases rule: process_tweets_Cons_cases)
    case no_id
    from Cons.IH[OF no_id(3)]
    have "duplicates (counts s') = duplicates (counts s)
           + int (length (filter (repeated (dataset_ids s) ts) [0..<length ts]))" by simp
    moreover have "\<not> repeated (dataset_ids s) (t # ts) 0"
      using no_id(2) by (simp add: repeated_def)
    ultimately show ?thesis
      using no_id(2) by (simp add: filter_upt_Suc repeated_Suc del: upt_Suc)
  next
    case (with_id k later s3)
    from Cons.IH[OF with_id(3)] with_id(5,7)
    have "duplicates (counts s') = duplicates (counts s) + (if k \<in> dataset_ids s then 1 else 0)
           + int (length (filter (repeated (insert k (dataset_ids s)) ts) [0..<length ts]))"
      by simp
    moreover have "repeated (dataset_ids s) (t # ts) 0 \<longleftrightarrow> k \<in> dataset_ids s"
      using with_id(2) by (simp add: repeated_def)
    ultimately show ?thesis
      using with_id(2)
      by (simp add: filter_upt_Suc repeated_Suc del: upt_Suc)
  qed
qed

lemma process_tweets_distinct:
  "process_tweets s ts = Inr (out, s') \<Longrightarrow> \<not> allow_duplicates s
     \<Longrightarrow> distinct (map id_key out) \<and> (\<forall>t\<in>set out. \<exists>k. id_key t = Some k \<and> k \<notin> dataset_ids s)"
proof (induction ts arbitrary: s out)
  case Nil
  then show ?case by simp
next
  case (Cons t ts)
  from Cons.prems(1) show ?case
  proof (cases rule: process_tweets_Cons_cases)
    case no_id
    from Cons.IH[OF no_id(3)] Cons.prems(2) show ?thesis by simp
  next
    case (with_id k later s3)
    from Cons.IH[OF with_id(3)] Cons.prems(2) with_id(5,6)
    have "distinct (map id_key later)"
      "\<forall>t\<in>set later. \<exists>k'. id_key t = Some k' \<and> k' \<notin> insert k (dataset_ids s)"
      by simp_all
    with with_id(2,4) Cons.prems(2) show ?thesis by (auto simp: image_iff)
  qed
qed


text \<open>
  Claim C2. Deduplication over records whose identifiers can be hashed. It returns, and:
  with duplicate-allowance disabled the rows yielded are exactly the input positions
  that hold the first occurrence of an identifier the set did not have, in input order,
  so no identifier is yielded twice; with duplicate-allowance enabled every record with
  an identifier is yielded; in both modes the duplicates counter grows by the number of
  positions whose identifier is in the set when the record is reached; and the set
  afterwards is the set before together with every identifier of the input.
\<close>

theorem dedup_keeps_first_occurrence:
  assumes "\<forall>t\<in>set ts. dict_has t ''id'' \<longrightarrow> id_key t \<noteq> None"
  shows "\<exists>out s'. process_tweets s ts = Inr (out, s')
     \<and> (\<not> allow_duplicates s \<longrightarrow>
           out = map ((!) ts) (filter (first_new (dataset_ids s) ts) [0..<length ts])
           \<and> distinct (map id_key out))
     \<and> (allow_duplicates s \<longrightarrow> out = filter (\<lambda>t. dict_has t ''id'') ts)
     \<and> duplicates (counts s') = duplicates (counts s)
           + int (length (filter (repeated (dataset_ids s) ts) [0..<length ts]))
     \<and> dataset_ids s' = dataset_ids s \<union> seen_ids ts
     \<and> dataset_ids s \<subseteq> dataset_ids s'"
proof -
  from process_tweets_total[OF assms] obtain out s' where
    r: "process_tweets s ts = Inr (out, s')" by blast
  have a: "\<not> allow_duplicates s \<longrightarrow>
           out = map ((!) ts) (filter (first_new (dataset_ids s) ts) [0..<length ts])
           \<and> distinct (map id_key out)"
    using process_tweets_kept[OF r] process_tweets_distinct[OF r] by blast
  have b: "allow_duplicates s \<longrightarrow> out = filter (\<lambda>t. dict_has t ''id'') ts"
    using process_tweets_allow[OF r] by blast
  have c: "dataset_ids s \<subseteq> dataset_ids s'"
    using process_tweets_ids[OF r] by blast
  from r a b process_tweets_duplicates[OF r] process_tweets_ids[OF r] c
  show ?thesis by blast
qed

theorem dedup_keeps_first_occurrence_witness:
  "\<exists>s'. process_tweets (default_converter ''compliance'')
          [[(''id'', JStr ''1''), (''text'', JStr ''a'')],
           [(''id'', JStr ''2'')],
           [(''id'', JStr ''1''), (''text'', JStr ''b'')],
           [(''text'', JStr ''c'')]]
        = Inr ([[(''id'', JStr ''1''), (''text'', JStr ''a'')], [(''id'', JStr ''2'')]], s')
      \<and> duplicates (counts s') = 1
      \<and> dataset_ids s' = {JStr ''1'', JStr ''2''}"
proof -
  let ?s = "default_converter ''compliance''"
  let ?ts = "[[(''id'', JStr ''1''), (''text'', JStr ''a'')],
           [(''id'', JStr ''2'')],
           [(''id'', JStr ''1''), (''text'', JStr ''b'')],
           [(''text'', JStr ''c'')]]"
  have h: "\<forall>t\<in>set ?ts. dict_has t ''id'' \<longrightarrow> id_key t \<noteq> None"
    by (simp add: dict_has_def id_key_def)
  have s0: "\<not> allow_duplicates ?s" "dataset_ids ?s = {}" "duplicates (counts ?s) = 0"
    by (simp_all add: default_converter_def DataFrameConverter_def Let_def init_counts_def)
  have e1: "map ((!) ?ts) (filter (first_new {} ?ts) [0..<length ?ts])
              = [[(''id'', JStr ''1''), (''text'', JStr ''a'')], [(''id'', JStr ''2'')]]"
    by code_simp
  have e2: "int (length (filter (repeated {} ?ts) [0..<length ?ts])) = 1"
    by code_simp
  have e3: "seen_ids ?ts = {JStr ''1'', JStr ''2''}"
    by (auto simp: id_key_def)
  from dedup_keeps_first_occurrence[OF h, of ?s] obtain out s' where
    r: "process_tweets ?s ?ts = Inr (out, s')"
    and k: "\<not> allow_duplicates ?s \<longrightarrow>
           out = map ((!) ?ts) (filter (first_new (dataset_ids ?s) ?ts) [0..<length ?ts])
           \<and> distinct (map id_key out)"
    and d: "duplicates (counts s') = duplicates (counts ?s)
           + int (length (filter (repeated (dataset_ids ?s) ?ts) [0..<length ?ts]))"
    and i: "dataset_ids s' = dataset_ids ?s \<union> seen_ids ?ts"
    by blast
  from k s0 e1 have "out = [[(''id'', JStr ''1''), (''text'', JStr ''a'')], [(''id'', JStr ''2'')]]"
    by (simp only: not_False_eq_True simp_thms)
  moreover from d s0 e2 have "duplicates (counts s') = 1" by (simp only: add_0)
  moreover from i s0 e3 have "dataset_ids s' = {JStr ''1'', JStr ''2''}" by (simp only: Un_empty_left)
  ultimately show ?thesis using r by blast
qed

section \<open>Escaping line breaks in cells\<close>

lemma str_replace_removes: "old \<notin> set new \<Longrightarrow> old \<notin> set (str_replace old new s)"
  by (induction s) (auto simp: str_replace_def)

lemma str_replace_keeps_out:
  "c \<notin> set s \<Longrightarrow> c \<notin> set new \<Longrightarrow> c \<notin> set (str_replace old new s)"
  by (induction s) (auto simp: str_replace_def)

lemma escape_newlines_chars:
  "escape_newlines x =
     concat (map (\<lambda>c. if c = cr then [] else if c = nl then [backslash, CHR ''n''] else [c]) x)"
  by (induction x) (auto simp: escape_newlines_def str_replace_def cr_def nl_def)

lemma escape_newlines_no_cr: "cr \<notin> set (escape_newlines x)"
  unfolding escape_newlines_def
  by (rule str_replace_keeps_out)
     (simp_all add: str_replace_removes cr_def backslash_def)

lemma escape_newlines_no_nl: "nl \<notin> set (escape_newlines x)"
  unfolding escape_newlines_def
  by (rule str_replace_removes) (simp add: nl_def backslash_def)

lemma apply_cell_str:
  "apply_cell (encode_list dumps) (apply_cell escape_text (Val (JStr x)))
     = Val (JStr (escape_newlines x))"
  "apply_cell escape_text (Val (JStr x)) = Val (JStr (escape_newlines x))"
  by (simp_all add: encode_list_def)

lemma df_rows_applymap: "df_rows (applymap f df) = map (map (apply_cell f)) (df_rows df)"
  by (simp add: applymap_def)

text \<open>
  Claim C8. With encode-all and encode-text both disabled, a cell that holds a string
  holds afterwards that string with every carriage return removed and every newline
  replaced by a backslash followed by the letter n, whether or not lists are encoded; the
  result has no carriage return and no newline left, and the string line1, newline, line2,
  carriage return becomes line1, backslash, n, line2.
\<close>

theorem newline_escape_in_default_mode:
  assumes "\<not> json_encode_all s" and "\<not> json_encode_text s"
    and "i < length (df_rows df)" and "j < length (df_rows df ! i)"
    and "df_rows df ! i ! j = Val (JStr x)"
  shows "df_rows (process_dataframe ext s df) ! i ! j = Val (JStr (escape_newlines x))
    \<and> escape_newlines x =
        concat (map (\<lambda>c. if c = cr then [] else if c = nl then [backslash, CHR ''n''] else [c]) x)
    \<and> cr \<notin> set (escape_newlines x) \<and> nl \<notin> set (escape_newlines x)
    \<and> escape_newlines (''line1'' @ [nl] @ ''line2'' @ [cr]) = ''line1'' @ [backslash] @ ''nline2''"
proof -
  have "df_rows (process_dataframe ext s df) ! i ! j = Val (JStr (escape_newlines x))"
    using assms
    by (cases "json_encode_lists s")
       (simp_all add: process_dataframe_def Let_def df_rows_applymap encode_list_def)
  moreover have "escape_newlines (''line1'' @ [nl] @ ''line2'' @ [cr]) = ''line1'' @ [backslash] @ ''nline2''"
    by (simp add: escape_newlines_chars cr_def nl_def)
  ultimately show ?thesis
    using escape_newlines_chars[of x] escape_newlines_no_cr[of x] escape_newlines_no_nl[of x]
    by blast
qed

theorem newline_escape_in_default_mode_witness:
  "df_rows (process_dataframe sample_externals (default_converter ''compliance'')
      \<lparr> df_columns = [''reason''],
        df_rows = [[Val (JStr (''line1'' @ [nl] @ ''line2'' @ [cr]))]] \<rparr>) ! 0 ! 0
    = Val (JStr (''line1'' @ [backslash] @ ''nline2''))"
proof -
  let ?s = "default_converter ''compliance''"
  let ?df = "\<lparr> df_columns = [''reason''],
        df_rows = [[Val (JStr (''line1'' @ [nl] @ ''line2'' @ [cr]))]] \<rparr>"
  have a: "\<not> json_encode_all ?s" "\<not> json_encode_text ?s"
    by (simp_all add: default_converter_def DataFrameConverter_def Let_def)
  have b: "0 < length (df_rows ?df)" "0 < length (df_rows ?df ! 0)"
    "df_rows ?df ! 0 ! 0 = Val (JStr (''line1'' @ [nl] @ ''line2'' @ [cr]))"
    by simp_all
  note t = newline_escape_in_default_mode[OF a b, of sample_externals]
  from t[THEN conjunct1]
    t[THEN conjunct2, THEN conjunct2, THEN conjunct2, THEN conjunct2]
  show ?thesis by (rule trans[OF _ arg_cong[where f = "\<lambda>z. Val (JStr z)"]])
qed

section \<open>Lookups in normalized records\<close>

lemma map_of_dict_set: "map_of (dict_set k v d) k' = (if k' = k then Some v else map_of d k')"
  by (simp add: dict_set_def update_conv')

lemma map_of_dict_pop: "map_of (dict_pop k d) k' = (if k' = k then None else map_of d k')"
  by (simp add: dict_pop_def delete_conv')

lemma map_of_drop_if_empty:
  "map_of (drop_if_empty k d) k' = (if k' = k then kept_if_nonempty (map_of d k) else map_of d k')"
  by (cases "map_of d k") (auto simp: drop_if_empty_def map_of_dict_pop)

lemma map_of_set_user_id_other:
  "k \<noteq> field \<Longrightarrow> map_of (set_user_id field target t) k = map_of t k"
  by (auto simp: set_user_id_def map_of_dict_set split: option.splits)

lemma map_of_set_user_id_same:
  "map_of d ''author_id'' = Some a
     \<Longrightarrow> map_of (set_user_id field (Some d) t) field = Some a"
  by (auto simp: set_user_id_def map_of_dict_set dict_has_def get_or_none_def)

lemma select_type_ok:
  "list_all ref_ok rs \<Longrightarrow> \<exists>ds. select_type kind rs = Inr ds
      \<and> map JObj ds = filter (has_kind kind) rs"
proof (induction rs)
  case Nil
  show ?case by simp
next
  case (Cons r rs)
  then obtain ds where ds: "select_type kind rs = Inr ds" "map JObj ds = filter (has_kind kind) rs"
    by auto
  from Cons.prems obtain d k where r: "r = JObj d" "map_of d ''type'' = Some (JStr k)"
    by (cases r) (auto split: option.splits json.splits)
  with ds show ?case by auto
qed

lemma reference_entries_ok:
  "list_all ref_ok rs \<Longrightarrow> \<exists>ms. reference_entries rs = Inr ms"
proof (induction rs)
  case Nil
  show ?case by simp
next
  case (Cons r rs)
  then obtain ms where ms: "reference_entries rs = Inr ms" by auto
  from Cons.prems obtain d k i where r: "r = JObj d" "map_of d ''type'' = Some (JStr k)"
    "map_of d ''id'' = Some i"
    by (cases r) (auto simp: dict_has_def split: option.splits json.splits)
  with ms show ?case by auto
qed

lemma last_of_kind:
  assumes "map JObj ds = filter (has_kind kind) rs" and "rs = pre @ JObj d # post"
    and "has_kind kind (JObj d)" and "\<forall>r\<in>set post. \<not> has_kind kind r"
  shows "last_or_none ds = Some d"
proof -
  from assms(4) have "filter (has_kind kind) post = []" by (simp add: filter_empty_conv)
  with assms have m: "map JObj ds = filter (has_kind kind) pre @ [JObj d]" by simp
  then have ne: "ds \<noteq> []" by auto
  from m have "last (map JObj ds) = JObj d" by simp
  with ne have "last ds = d" by (simp add: last_map)
  with ne show ?thesis by (simp add: last_or_none_def)
qed

lemma kind_nonempty: "has_kind kind (JObj d) \<Longrightarrow> d \<noteq> []"
  by auto

lemma format_tweet_refs:
  assumes "map_of tweet ''referenced_tweets'' = Some (JArr rs)" and "list_all ref_ok rs"
  obtains rts qts ms where
    "map JObj rts = filter (has_kind ''retweeted'') rs"
    "map JObj qts = filter (has_kind ''quoted'') rs"
    "reference_entries rs = Inr ms"
    "format_tweet s tweet =
       Inr (finish_tweet (dict_set ''referenced_tweets'' (JObj (chainmap_dict ms))
         (case last_or_none rts of
            None \<Rightarrow>
              set_user_id ''quoted_user_id'' (last_or_none qts)
                (set_user_id ''retweeted_user_id'' (last_or_none rts)
                   (dict_pop ''in_reply_to_user'' (dict_pop ''pinned_tweet'' tweet)))
          | Some rt \<Rightarrow>
              if rt \<noteq> [] \<and> merge_retweets s
              then merge_retweet rt
                     (set_user_id ''quoted_user_id'' (last_or_none qts)
                        (set_user_id ''retweeted_user_id'' (last_or_none rts)
                           (dict_pop ''in_reply_to_user'' (dict_pop ''pinned_tweet'' tweet))))
              else set_user_id ''quoted_user_id'' (last_or_none qts)
                     (set_user_id ''retweeted_user_id'' (last_or_none rts)
                        (dict_pop ''in_reply_to_user'' (dict_pop ''pinned_tweet'' tweet))))))"
proof -
  from select_type_ok[OF assms(2), of "''retweeted''"] obtain rts where
    rts: "select_type ''retweeted'' rs = Inr rts" "map JObj rts = filter (has_kind ''retweeted'') rs"
    by blast
  from select_type_ok[OF assms(2), of "''quoted''"] obtain qts where
    qts: "select_type ''quoted'' rs = Inr qts" "map JObj qts = filter (has_kind ''quoted'') rs"
    by blast
  from reference_entries_ok[OF assms(2)] obtain ms where ms: "reference_entries rs = Inr ms"
    by blast
  have l: "map_of (dict_pop ''in_reply_to_user'' (dict_pop ''pinned_tweet'' tweet))
             ''referenced_tweets'' = Some (JArr rs)"
    using assms(1) by (simp add: map_of_dict_pop)
  have "format_tweet s tweet =
       Inr (finish_tweet (dict_set ''referenced_tweets'' (JObj (chainmap_dict ms))
         (case last_or_none rts of
            None \<Rightarrow>
              set_user_id ''quoted_user_id'' (last_or_none qts)
                (set_user_id ''retweeted_user_id'' (last_or_none rts)
                   (dict_pop ''in_reply_to_user'' (dict_pop ''pinned_tweet'' tweet)))
          | Some rt \<Rightarrow>
              if rt \<noteq> [] \<and> merge_retweets s
              then merge_retweet rt
                     (set_user_id ''quoted_user_id'' (last_or_none qts)
                        (set_user_id ''retweeted_user_id'' (last_or_none rts)
                           (dict_pop ''in_reply_to_user'' (dict_pop ''pinned_tweet'' tweet))))
              else set_user_id ''quoted_user_id'' (last_or_none qts)
                     (set_user_id ''retweeted_user_id'' (last_or_none rts)
                        (dict_pop ''in_reply_to_user'' (dict_pop ''pinned_tweet'' tweet))))))"
    unfolding format_tweet_def Let_def
    by (simp only: l rts(1) qts(1) ms option.case sum.case py_iter.simps)
  with rts(2) qts(2) ms show ?thesis by (rule that)
qed

lemma map_of_finish_tweet:
  "map_of (finish_tweet t) k =
     (if k = ''type'' then None
      else if k = ''public_metrics'' \<or> k = ''entities'' \<or> k = ''attachments''
           then kept_if_nonempty (map_of t k)
      else map_of t k)"
  by (simp add: finish_tweet_def map_of_drop_if_empty map_of_dict_pop)

lemma map_of_merge_retweet:
  "map_of (merge_retweet rt t) k =
     (if k = ''text'' \<or> k = ''entities'' \<or> k = ''attachments'' \<or> k = ''context_annotations''
         \<or> k = ''public_metrics''
      then Some (get_or_none rt k) else map_of t k)"
  by (simp add: merge_retweet_def map_of_dict_set)

section \<open>References, user identifiers and the retweet merge\<close>

text \<open>
  Claim C4. In a record whose reference list holds well-formed entries, take the last
  entry of kind \<^verbatim>\<open>retweeted\<close> (of kind \<^verbatim>\<open>quoted\<close>): when it carries an author
  identifier, normalization succeeds and the output has the field
  \<^verbatim>\<open>retweeted_user_id\<close> (\<^verbatim>\<open>quoted_user_id\<close>) with that identifier as value.
\<close>

theorem last_reference_gives_user_id:
  assumes "map_of tweet ''referenced_tweets'' = Some (JArr rs)" and "list_all ref_ok rs"
    and "(kind = ''retweeted'' \<and> field = ''retweeted_user_id'')
         \<or> (kind = ''quoted'' \<and> field = ''quoted_user_id'')"
    and "rs = pre @ JObj d # post" and "has_kind kind (JObj d)"
    and "\<forall>r\<in>set post. \<not> has_kind kind r"
    and "map_of d ''author_id'' = Some a"
  shows "\<exists>out. format_tweet s tweet = Inr out \<and> map_of out field = Some a"
proof -
  from assms(1,2) obtain rts qts ms where
    rts: "map JObj rts = filter (has_kind ''retweeted'') rs" and
    qts: "map JObj qts = filter (has_kind ''quoted'') rs" and
    f: "format_tweet s tweet =
       Inr (finish_tweet (dict_set ''referenced_tweets'' (JObj (chainmap_dict ms))
         (case last_or_none rts of
            None \<Rightarrow>
              set_user_id ''quoted_user_id'' (last_or_none qts)
                (set_user_id ''retweeted_user_id'' (last_or_none rts)
                   (dict_pop ''in_reply_to_user'' (dict_pop ''pinned_tweet'' tweet)))
          | Some rt \<Rightarrow>
              if rt \<noteq> [] \<and> merge_retweets s
              then merge_retweet rt
                     (set_user_id ''quoted_user_id'' (last_or_none qts)
                        (set_user_id ''retweeted_user_id'' (last_or_none rts)
                           (dict_pop ''in_reply_to_user'' (dict_pop ''pinned_tweet'' tweet))))
              else set_user_id ''quoted_user_id'' (last_or_none qts)
                     (set_user_id ''retweeted_user_id'' (last_or_none rts)
                        (dict_pop ''in_reply_to_user'' (dict_pop ''pinned_tweet'' tweet))))))"
    by (rule format_tweet_refs[of tweet rs s])
  from assms(3) show ?thesis
  proof (elim disjE conjE)
    assume k: "kind = ''retweeted''" "field = ''retweeted_user_id''"
    from last_of_kind[OF rts assms(4) assms(5)[unfolded k] assms(6)[unfolded k]]
    have l: "last_or_none rts = Some d" .
    show ?thesis
      unfolding f k l
      by (simp add: map_of_finish_tweet map_of_dict_set map_of_merge_retweet
          map_of_set_user_id_other map_of_set_user_id_same[OF assms(7)])
  next
    assume k: "kind = ''quoted''" "field = ''quoted_user_id''"
    from last_of_kind[OF qts assms(4) assms(5)[unfolded k] assms(6)[unfolded k]]
    have l: "last_or_none qts = Some d" .
    show ?thesis
      unfolding f k l
      by (cases "last_or_none rts")
        (simp_all add: map_of_finish_tweet map_of_dict_set map_of_merge_retweet
          map_of_set_user_id_same[OF assms(7)])
  qed
qed

theorem last_reference_gives_user_id_witness:
  "\<exists>out. format_tweet (default_converter ''compliance'')
      [(''id'', JStr ''1''), (''author_id'', JStr ''u1''),
       (''referenced_tweets'', JArr
          [JObj [(''type'', JStr ''quoted''), (''id'', JStr ''10''), (''author_id'', JStr ''a'')],
           JObj [(''type'', JStr ''quoted''), (''id'', JStr ''20''), (''author_id'', JStr ''b'')]])]
      = Inr out
    \<and> map_of out ''quoted_user_id'' = Some (JStr ''b'')"
proof -
  let ?e1 = "JObj [(''type'', JStr ''quoted''), (''id'', JStr ''10''), (''author_id'', JStr ''a'')]"
  let ?d2 = "[(''type'', JStr ''quoted''), (''id'', JStr ''20''), (''author_id'', JStr ''b'')]"
  let ?tw = "[(''id'', JStr ''1''), (''author_id'', JStr ''u1''),
       (''referenced_tweets'', JArr [?e1, JObj ?d2])]"
  have 1: "map_of ?tw ''referenced_tweets'' = Some (JArr [?e1, JObj ?d2])" by simp
  have 2: "list_all ref_ok [?e1, JObj ?d2]" by (simp add: dict_has_def)
  have 3: "(''quoted'' = ''retweeted'' \<and> ''quoted_user_id'' = ''retweeted_user_id'')
         \<or> (''quoted'' = ''quoted'' \<and> ''quoted_user_id'' = ''quoted_user_id'')" by simp
  have 4: "[?e1, JObj ?d2] = [?e1] @ JObj ?d2 # []" by simp
  have 5: "has_kind ''quoted'' (JObj ?d2)" by simp
  have 6: "\<forall>r\<in>set []. \<not> has_kind ''quoted'' r" by simp
  have 7: "map_of ?d2 ''author_id'' = Some (JStr ''b'')" by simp
  from last_reference_gives_user_id[OF 1 2 3 4 5 6 7] show ?thesis .
qed

text \<open>
  Claim C3, as the code has it. In a record whose reference list holds well-formed
  entries, let \<open>rt\<close> be the last entry of kind \<^verbatim>\<open>retweeted\<close>. Normalization succeeds
  and leaves the author identifier as it was. With merge-mode enabled, \<^verbatim>\<open>text\<close> and
  \<^verbatim>\<open>context_annotations\<close> of the output are the values taken from \<open>rt\<close>
  (\<^verbatim>\<open>None\<close> when \<open>rt\<close> lacks the field), and each of \<^verbatim>\<open>entities\<close>,
  \<^verbatim>\<open>attachments\<close>, \<^verbatim>\<open>public_metrics\<close> is the value taken from \<open>rt\<close> when that
  value is truthy and is absent from the output otherwise. With merge-mode disabled the
  first two fields are as on the record itself, and each of the three others is as on the
  record when truthy and absent otherwise.
\<close>

theorem retweet_merge_fields:
  assumes "map_of tweet ''referenced_tweets'' = Some (JArr rs)" and "list_all ref_ok rs"
    and "rs = pre @ JObj rt # post" and "has_kind ''retweeted'' (JObj rt)"
    and "\<forall>r\<in>set post. \<not> has_kind ''retweeted'' r"
  shows "\<exists>out. format_tweet s tweet = Inr out
     \<and> map_of out ''author_id'' = map_of tweet ''author_id''
     \<and> (merge_retweets s \<longrightarrow>
           map_of out ''text'' = Some (get_or_none rt ''text'')
         \<and> map_of out ''context_annotations'' = Some (get_or_none rt ''context_annotations'')
         \<and> (\<forall>f\<in>{''entities'', ''attachments'', ''public_metrics''}.
               map_of out f = kept_if_nonempty (Some (get_or_none rt f))))
     \<and> (\<not> merge_retweets s \<longrightarrow>
           map_of out ''text'' = map_of tweet ''text''
         \<and> map_of out ''context_annotations'' = map_of tweet ''context_annotations''
         \<and> (\<forall>f\<in>{''entities'', ''attachments'', ''public_metrics''}.
               map_of out f = kept_if_nonempty (map_of tweet f)))"
proof -
  from assms(1,2) obtain rts qts ms where
    rts: "map JObj rts = filter (has_kind ''retweeted'') rs" and
    f: "format_tweet s tweet =
       Inr (finish_tweet (dict_set ''referenced_tweets'' (JObj (chainmap_dict ms))
         (case last_or_none rts of
            None \<Rightarrow>
              set_user_id ''quoted_user_id'' (last_or_none qts)
                (set_user_id ''retweeted_user_id'' (last_or_none rts)
                   (dict_pop ''in_reply_to_user'' (dict_pop ''pinned_tweet'' tweet)))
          | Some rt \<Rightarrow>
              if rt \<noteq> [] \<and> merge_retweets s
              then merge_retweet rt
                     (set_user_id ''quoted_user_id'' (last_or_none qts)
                        (set_user_id ''retweeted_user_id'' (last_or_none rts)
                           (dict_pop ''in_reply_to_user'' (dict_pop ''pinned_tweet'' tweet))))
              else set_user_id ''quoted_user_id'' (last_or_none qts)
                     (set_user_id ''retweeted_user_id'' (last_or_none rts)
                        (dict_pop ''in_reply_to_user'' (dict_pop ''pinned_tweet'' tweet))))))"
    by (rule format_tweet_refs[of tweet rs s])
  from last_of_kind[OF rts assms(3,4,5)] have l: "last_or_none rts = Some rt" .
  from assms(4) have ne: "rt \<noteq> []" by (rule kind_nonempty)
  show ?thesis
  proof (cases "merge_retweets s")
    case True
    show ?thesis
      unfolding f l using True ne
      by (simp add: map_of_finish_tweet map_of_dict_set map_of_merge_retweet
          map_of_set_user_id_other map_of_dict_pop)
  next
    case False
    show ?thesis
      unfolding f l using False ne
      by (simp add: map_of_finish_tweet map_of_dict_set
          map_of_set_user_id_other map_of_dict_pop)
  qed
qed


theorem retweet_merge_fields_witness:
  "\<exists>out. format_tweet (default_converter ''compliance'')
      [(''id'', JStr ''1''), (''author_id'', JStr ''u1''), (''text'', JStr ''RT''),
       (''referenced_tweets'', JArr
          [JObj [(''type'', JStr ''retweeted''), (''id'', JStr ''2''),
                 (''author_id'', JStr ''u2''), (''text'', JStr ''original''),
                 (''public_metrics'', JObj [(''like_count'', JInt 5)])]])]
      = Inr out
    \<and> map_of out ''text'' = Some (JStr ''original'')
    \<and> map_of out ''public_metrics'' = Some (JObj [(''like_count'', JInt 5)])
    \<and> map_of out ''author_id'' = Some (JStr ''u1'')
    \<and> map_of out ''entities'' = None"
proof -
  let ?s = "default_converter ''compliance''"
  let ?rt = "[(''type'', JStr ''retweeted''), (''id'', JStr ''2''),
                 (''author_id'', JStr ''u2''), (''text'', JStr ''original''),
                 (''public_metrics'', JObj [(''like_count'', JInt 5)])]"
  let ?tw = "[(''id'', JStr ''1''), (''author_id'', JStr ''u1''), (''text'', JStr ''RT''),
       (''referenced_tweets'', JArr [JObj ?rt])]"
  have 1: "map_of ?tw ''referenced_tweets'' = Some (JArr [JObj ?rt])" by simp
  have 2: "list_all ref_ok [JObj ?rt]" by (simp add: dict_has_def)
  have 3: "[JObj ?rt] = [] @ JObj ?rt # []" by simp
  have 4: "has_kind ''retweeted'' (JObj ?rt)" by simp
  have 5: "\<forall>r\<in>set []. \<not> has_kind ''retweeted'' r" by simp
  have m: "merge_retweets ?s"
    by (simp add: default_converter_def DataFrameConverter_def Let_def)
  from retweet_merge_fields[OF 1 2 3 4 5, of ?s] obtain out where
    r: "format_tweet ?s ?tw = Inr out" and
    a: "map_of out ''author_id'' = map_of ?tw ''author_id''" and
    b: "merge_retweets ?s \<longrightarrow>
           map_of out ''text'' = Some (get_or_none ?rt ''text'')
         \<and> map_of out ''context_annotations'' = Some (get_or_none ?rt ''context_annotations'')
         \<and> (\<forall>f\<in>{''entities'', ''attachments'', ''public_metrics''}.
               map_of out f = kept_if_nonempty (Some (get_or_none ?rt f)))"
    by blast
  from b m have t: "map_of out ''text'' = Some (get_or_none ?rt ''text'')"
    and e: "map_of out ''entities'' = kept_if_nonempty (Some (get_or_none ?rt ''entities''))"
    and p: "map_of out ''public_metrics''
              = kept_if_nonempty (Some (get_or_none ?rt ''public_metrics''))"
    by blast+
  from t have "map_of out ''text'' = Some (JStr ''original'')"
    by (simp add: get_or_none_def)
  moreover from p have "map_of out ''public_metrics'' = Some (JObj [(''like_count'', JInt 5)])"
    by (simp add: get_or_none_def)
  moreover from a have "map_of out ''author_id'' = Some (JStr ''u1'')" by simp
  moreover from e have "map_of out ''entities'' = None" by (simp add: get_or_none_def)
  ultimately show ?thesis using r by blast
qed

text \<open>
  The claim as stated fails where the target's value is empty: a retweeted entry with
  \<^verbatim>\<open>entities\<close> equal to the empty dict gives, with merge-mode enabled, an output
  without the field \<^verbatim>\<open>entities\<close>, so the output's field is not the value taken from
  the target.
\<close>

theorem retweet_merge_empty_entities_dropped:
  "format_tweet (default_converter ''compliance'')
      [(''id'', JStr ''1''), (''author_id'', JStr ''u1''), (''text'', JStr ''RT''),
       (''referenced_tweets'', JArr
          [JObj [(''type'', JStr ''retweeted''), (''id'', JStr ''2''),
                 (''author_id'', JStr ''u2''), (''text'', JStr ''original''),
                 (''entities'', JObj [])]])]
     = Inr [(''id'', JStr ''1''), (''author_id'', JStr ''u1''), (''text'', JStr ''original''),
            (''referenced_tweets'', JObj [(''retweeted'', JObj [(''id'', JStr ''2'')])]),
            (''retweeted_user_id'', JStr ''u2''), (''context_annotations'', JNull)]
   \<and> merge_retweets (default_converter ''compliance'')
   \<and> map_of [(''id'', JStr ''1''), (''author_id'', JStr ''u1''), (''text'', JStr ''original''),
            (''referenced_tweets'', JObj [(''retweeted'', JObj [(''id'', JStr ''2'')])]),
            (''retweeted_user_id'', JStr ''u2''), (''context_annotations'', JNull)]
        ''entities''
      \<noteq> Some (get_or_none [(''type'', JStr ''retweeted''), (''id'', JStr ''2''),
                 (''author_id'', JStr ''u2''), (''text'', JStr ''original''),
                 (''entities'', JObj [])] ''entities'')"
  by code_simp

text \<open>
  Claim C5. The claim says that, of several entries with the same relation kind, the
  rebuilt mapping holds the identifier of the last one. \<^verbatim>\<open>ChainMap\<close> looks a key up
  in its maps from the first to the last, so the mapping holds the identifier of the first
  entry of a kind, while the user identifier beside it is taken from the last entry of
  that kind: with two quoted entries \<open>10\<close> (author \<open>a\<close>) and \<open>20\<close> (author \<open>b\<close>) the
  output refers to tweet \<open>10\<close> and to user \<open>b\<close>. A record without a reference list gets
  the empty mapping.
\<close>

theorem rebuilt_references_keep_first_entry:
  "format_tweet (default_converter ''compliance'')
      [(''id'', JStr ''1''), (''author_id'', JStr ''u1''),
       (''referenced_tweets'', JArr
          [JObj [(''type'', JStr ''quoted''), (''id'', JStr ''10''), (''author_id'', JStr ''a'')],
           JObj [(''type'', JStr ''quoted''), (''id'', JStr ''20''), (''author_id'', JStr ''b'')]])]
     = Inr [(''id'', JStr ''1''), (''author_id'', JStr ''u1''),
            (''referenced_tweets'', JObj [(''quoted'', JObj [(''id'', JStr ''10'')])]),
            (''quoted_user_id'', JStr ''b'')]
   \<and> format_tweet (default_converter ''compliance'') [(''id'', JStr ''1'')]
     = Inr [(''id'', JStr ''1''), (''referenced_tweets'', JObj [])]"
  by code_simp

section \<open>Entries that carry the parent's metadata\<close>

lemma format_tweet_total: "refs_ok t \<Longrightarrow> \<exists>row. format_tweet s t = Inr row"
proof (cases "map_of t ''referenced_tweets''")
  case None
  then have "map_of (dict_pop ''in_reply_to_user'' (dict_pop ''pinned_tweet'' t))
               ''referenced_tweets'' = None"
    by (simp add: map_of_dict_pop)
  then show ?thesis by (simp add: format_tweet_def Let_def)
next
  case (Some v)
  assume "refs_ok t"
  with Some obtain rs where rs: "v = JArr rs" "list_all ref_ok rs"
    by (cases v) (simp_all add: refs_ok_def)
  from Some rs show ?thesis
    using format_tweet_refs[of t rs s] by metis
qed

lemma update_swap:
  "k \<noteq> k' \<Longrightarrow> map_of al k' \<noteq> None
     \<Longrightarrow> AList.update k v (AList.update k' v' al) = AList.update k' v' (AList.update k v al)"
  by (induction al) auto

lemma update_twice: "AList.update k v (AList.update k v' al) = AList.update k v al"
  by (induction al) auto

lemma dict_set_swap:
  "k \<noteq> k' \<Longrightarrow> map_of d k' \<noteq> None
     \<Longrightarrow> dict_set k v (dict_set k' v' d) = dict_set k' v' (dict_set k v d)"
  unfolding dict_set_def by (rule update_swap)

lemma dict_set_twice: "dict_set k v (dict_set k v' d) = dict_set k v d"
  by (simp add: dict_set_def update_twice)

lemma dict_pop_set:
  "k \<noteq> k' \<Longrightarrow> dict_pop k (dict_set k' v' d) = dict_set k' v' (dict_pop k d)"
  by (simp add: dict_pop_def dict_set_def delete_update)

lemma set_user_id_swap:
  "field \<noteq> k' \<Longrightarrow> map_of t k' \<noteq> None
     \<Longrightarrow> set_user_id field target (dict_set k' v' t) = dict_set k' v' (set_user_id field target t)"
  by (cases target) (auto simp: set_user_id_def simp del: not_None_eq intro!: dict_set_swap)

lemma map_of_dict_set_present:
  "map_of t k' \<noteq> None \<Longrightarrow> map_of (dict_set k v t) k' \<noteq> None"
  by (simp add: map_of_dict_set)

lemma merge_retweet_swap:
  assumes "k' \<noteq> ''text''" "k' \<noteq> ''entities''" "k' \<noteq> ''attachments''"
    "k' \<noteq> ''context_annotations''" "k' \<noteq> ''public_metrics''"
    and p0: "map_of t k' \<noteq> None"
  shows "merge_retweet rt (dict_set k' v' t) = dict_set k' v' (merge_retweet rt t)"
proof -
  let ?t1 = "dict_set ''text'' (get_or_none rt ''text'') t"
  let ?t2 = "dict_set ''entities'' (get_or_none rt ''entities'') ?t1"
  let ?t3 = "dict_set ''attachments'' (get_or_none rt ''attachments'') ?t2"
  let ?t4 = "dict_set ''context_annotations'' (get_or_none rt ''context_annotations'') ?t3"
  have p1: "map_of ?t1 k' \<noteq> None" using p0 by (rule map_of_dict_set_present)
  have p2: "map_of ?t2 k' \<noteq> None" using p1 by (rule map_of_dict_set_present)
  have p3: "map_of ?t3 k' \<noteq> None" using p2 by (rule map_of_dict_set_present)
  have p4: "map_of ?t4 k' \<noteq> None" using p3 by (rule map_of_dict_set_present)
  have 1: "dict_set ''text'' (get_or_none rt ''text'') (dict_set k' v' t) = dict_set k' v' ?t1"
    using assms(1) p0 by (intro dict_set_swap) auto
  have 2: "dict_set ''entities'' (get_or_none rt ''entities'') (dict_set k' v' ?t1)
             = dict_set k' v' ?t2"
    using assms(2) p1 by (intro dict_set_swap) auto
  have 3: "dict_set ''attachments'' (get_or_none rt ''attachments'') (dict_set k' v' ?t2)
             = dict_set k' v' ?t3"
    using assms(3) p2 by (intro dict_set_swap) auto
  have 4: "dict_set ''context_annotations'' (get_or_none rt ''context_annotations'')
             (dict_set k' v' ?t3) = dict_set k' v' ?t4"
    using assms(4) p3 by (intro dict_set_swap) auto
  have 5: "dict_set ''public_metrics'' (get_or_none rt ''public_metrics'')
             (dict_set k' v' ?t4)
           = dict_set k' v' (dict_set ''public_metrics'' (get_or_none rt ''public_metrics'') ?t4)"
    using assms(5) p4 by (intro dict_set_swap) auto
  show ?thesis unfolding merge_retweet_def by (simp only: 1 2 3 4 5)
qed

lemma has_kind_candidate:
  "has_kind kind (JObj (dict_set ''__twarc'' tw (entry_dict r))) = has_kind kind r"
  by (cases r) (simp_all add: map_of_dict_set)

lemma ref_ok_candidate:
  "ref_ok r \<Longrightarrow> ref_ok (JObj (dict_set ''__twarc'' tw (entry_dict r)))"
  by (cases r) (auto simp: map_of_dict_set dict_has_def split: option.splits json.splits)

lemma refs_ok_candidate: "refs_ok d \<Longrightarrow> refs_ok (dict_set ''__twarc'' tw d)"
  by (simp add: refs_ok_def map_of_dict_set)

lemma list_all_ref_ok_candidates:
  "list_all ref_ok rs \<Longrightarrow> list_all ref_ok (map JObj (candidates tw rs))"
  by (induction rs) (simp_all add: candidates_def ref_ok_candidate del: ref_ok.simps)

lemma filter_kind_candidates:
  "filter (has_kind kind) (map JObj (candidates tw rs))
     = map (\<lambda>r. JObj (dict_set ''__twarc'' tw (entry_dict r))) (filter (has_kind kind) rs)"
  by (induction rs) (simp_all add: candidates_def has_kind_candidate del: has_kind.simps)

lemma selected_candidates:
  assumes "map JObj ds = filter (has_kind kind) rs"
    and "map JObj ds' = filter (has_kind kind) (map JObj (candidates tw rs))"
  shows "ds' = map (dict_set ''__twarc'' tw) ds"
proof -
  have "map JObj ds' = map (\<lambda>r. JObj (dict_set ''__twarc'' tw (entry_dict r))) (map JObj ds)"
    using assms by (simp add: filter_kind_candidates)
  also have "\<dots> = map JObj (map (dict_set ''__twarc'' tw) ds)" by simp
  finally show ?thesis by (simp add: inj_map_eq_map inj_def del: map_map)
qed

lemma reference_entries_candidates:
  "list_all ref_ok rs \<Longrightarrow> reference_entries (map JObj (candidates tw rs)) = reference_entries rs"
proof (induction rs)
  case Nil
  show ?case by (simp add: candidates_def)
next
  case (Cons r rs)
  from Cons.prems obtain d k i where r: "r = JObj d" "map_of d ''type'' = Some (JStr k)"
    "map_of d ''id'' = Some i"
    by (cases r) (auto simp: dict_has_def split: option.splits json.splits)
  from Cons have "reference_entries (map JObj (candidates tw rs)) = reference_entries rs"
    by simp
  with r show ?case by (simp add: candidates_def map_of_dict_set)
qed

lemma last_or_none_map: "last_or_none (map f xs) = map_option f (last_or_none xs)"
  by (simp add: last_or_none_def last_map)

lemma set_user_id_candidate:
  "set_user_id field (map_option (dict_set ''__twarc'' tw) target) t = set_user_id field target t"
proof (cases target)
  case None
  then show ?thesis by (simp add: set_user_id_def)
next
  case (Some d)
  have "dict_has d ''author_id'' \<Longrightarrow> d \<noteq> []" by (auto simp: dict_has_def)
  moreover have "dict_set ''__twarc'' tw d \<noteq> []" by (cases d) (simp_all add: dict_set_def)
  ultimately show ?thesis
    using Some by (auto simp: set_user_id_def dict_has_def map_of_dict_set get_or_none_def)
qed

lemma merge_retweet_candidate:
  "merge_retweet (dict_set ''__twarc'' tw rt) t = merge_retweet rt t"
  by (simp add: merge_retweet_def get_or_none_def map_of_dict_set)

lemma last_of_kind_nonempty:
  assumes "map JObj ds = filter (has_kind kind) rs" and "last_or_none ds = Some d"
  shows "d \<noteq> []"
proof -
  from assms(2) have "d \<in> set ds" by (auto simp: last_or_none_def split: if_splits)
  then have "JObj d \<in> set (map JObj ds)" by simp
  with assms(1) have "has_kind kind (JObj d)" by simp
  then show ?thesis by auto
qed

lemma format_tweet_twarc_entries:
  assumes refs: "map_of tweet ''referenced_tweets'' = Some (JArr rs)" and ok: "list_all ref_ok rs"
  shows "format_tweet s (dict_set ''referenced_tweets'' (JArr (map JObj (candidates tw rs))) tweet)
           = format_tweet s tweet"
proof -
  let ?X = "JArr (map JObj (candidates tw rs))"
  let ?tweet' = "dict_set ''referenced_tweets'' ?X tweet"
  let ?t1 = "dict_pop ''in_reply_to_user'' (dict_pop ''pinned_tweet'' tweet)"
  let ?upd = "dict_set ''__twarc'' tw"
  have refs': "map_of ?tweet' ''referenced_tweets'' = Some ?X" by (simp add: map_of_dict_set)
  have ok': "list_all ref_ok (map JObj (candidates tw rs))"
    using ok by (rule list_all_ref_ok_candidates)
  from refs ok obtain rts qts ms where
    rts: "map JObj rts = filter (has_kind ''retweeted'') rs" and
    qts: "map JObj qts = filter (has_kind ''quoted'') rs" and
    ms: "reference_entries rs = Inr ms" and
    f: "format_tweet s tweet =
       Inr (finish_tweet (dict_set ''referenced_tweets'' (JObj (chainmap_dict ms))
         (case last_or_none rts of
            None \<Rightarrow>
              set_user_id ''quoted_user_id'' (last_or_none qts)
                (set_user_id ''retweeted_user_id'' (last_or_none rts) ?t1)
          | Some rt \<Rightarrow>
              if rt \<noteq> [] \<and> merge_retweets s
              then merge_retweet rt
                     (set_user_id ''quoted_user_id'' (last_or_none qts)
                        (set_user_id ''retweeted_user_id'' (last_or_none rts) ?t1))
              else set_user_id ''quoted_user_id'' (last_or_none qts)
                     (set_user_id ''retweeted_user_id'' (last_or_none rts) ?t1))))"
    by (rule format_tweet_refs[of tweet rs s])
  let ?t1' = "dict_pop ''in_reply_to_user'' (dict_pop ''pinned_tweet'' ?tweet')"
  from refs' ok' obtain rts' qts' ms' where
    rts': "map JObj rts' = filter (has_kind ''retweeted'') (map JObj (candidates tw rs))" and
    qts': "map JObj qts' = filter (has_kind ''quoted'') (map JObj (candidates tw rs))" and
    ms': "reference_entries (map JObj (candidates tw rs)) = Inr ms'" and
    f': "format_tweet s ?tweet' =
       Inr (finish_tweet (dict_set ''referenced_tweets'' (JObj (chainmap_dict ms'))
         (case last_or_none rts' of
            None \<Rightarrow>
              set_user_id ''quoted_user_id'' (last_or_none qts')
                (set_user_id ''retweeted_user_id'' (last_or_none rts') ?t1')
          | Some rt \<Rightarrow>
              if rt \<noteq> [] \<and> merge_retweets s
              then merge_retweet rt
                     (set_user_id ''quoted_user_id'' (last_or_none qts')
                        (set_user_id ''retweeted_user_id'' (last_or_none rts') ?t1'))
              else set_user_id ''quoted_user_id'' (last_or_none qts')
                     (set_user_id ''retweeted_user_id'' (last_or_none rts') ?t1'))))"
    by (rule format_tweet_refs[of ?tweet' "map JObj (candidates tw rs)" s])
  have e1: "rts' = map ?upd rts" using rts rts' by (rule selected_candidates)
  have e2: "qts' = map ?upd qts" using qts qts' by (rule selected_candidates)
  have e3: "ms' = ms" using ms ms' reference_entries_candidates[OF ok, of tw] by simp
  have l1: "last_or_none rts' = map_option ?upd (last_or_none rts)"
    unfolding e1 by (rule last_or_none_map)
  have l2: "last_or_none qts' = map_option ?upd (last_or_none qts)"
    unfolding e2 by (rule last_or_none_map)
  have p1: "map_of ?t1 ''referenced_tweets'' \<noteq> None"
    using refs by (simp add: map_of_dict_pop)
  have t1: "?t1' = dict_set ''referenced_tweets'' ?X ?t1"
    by (simp add: dict_pop_set)
  let ?t2 = "set_user_id ''retweeted_user_id'' (last_or_none rts) ?t1"
  let ?t3 = "set_user_id ''quoted_user_id'' (last_or_none qts) ?t2"
  have p2: "map_of ?t2 ''referenced_tweets'' \<noteq> None"
    using p1 by (simp add: map_of_set_user_id_other)
  have p3: "map_of ?t3 ''referenced_tweets'' \<noteq> None"
    using p2 by (simp add: map_of_set_user_id_other)
  have t2: "set_user_id ''retweeted_user_id'' (last_or_none rts') ?t1'
              = dict_set ''referenced_tweets'' ?X ?t2"
    unfolding l1 t1 set_user_id_candidate
    using p1 by (intro set_user_id_swap) auto
  have t3: "set_user_id ''quoted_user_id'' (last_or_none qts')
              (set_user_id ''retweeted_user_id'' (last_or_none rts') ?t1')
              = dict_set ''referenced_tweets'' ?X ?t3"
    unfolding t2 l2 set_user_id_candidate
    using p2 by (intro set_user_id_swap) auto
  show ?thesis
  proof (cases "last_or_none rts")
    case None
    then have "last_or_none rts' = None" by (simp add: l1)
    then have n': "last_or_none rts' = None" .
    note t3' = t3[unfolded n' None]
    show ?thesis
      unfolding f f' e3 n' None by (simp add: t3' dict_set_twice)
  next
    case (Some rt)
    then have s': "last_or_none rts' = Some (?upd rt)" by (simp add: l1)
    have ne: "rt \<noteq> []" using rts Some by (rule last_of_kind_nonempty)
    have ne': "?upd rt \<noteq> []" by (cases rt) (simp_all add: dict_set_def)
    have m: "merge_retweet (?upd rt) (dict_set ''referenced_tweets'' ?X ?t3)
               = dict_set ''referenced_tweets'' ?X (merge_retweet rt ?t3)"
      unfolding merge_retweet_candidate
      using p3 by (intro merge_retweet_swap) auto
    note t3' = t3[unfolded s' Some]
    note m' = m[unfolded Some]
    show ?thesis
      unfolding f f' e3 s' Some
      by (simp add: ne ne' t3' m' dict_set_twice)
  qed
qed

lemma bump_referenced [simp]:
  "merge_retweets (s\<lparr>counts := c\<rparr>) = merge_retweets s"
  "referenced_tweets (counts (s\<lparr>counts := c\<rparr>)) = referenced_tweets c"
  "unavailable (counts (s\<lparr>counts := c\<rparr>)) = unavailable c"
  by simp_all

lemma inline_loop_expansion:
  assumes "list_all entry_ok rs"
  shows "\<exists>out s'. inline_loop s tw rs = Inr (out, map JObj (candidates tw rs), s')
    \<and> map Inr out = map (format_tweet s) (filter (\<lambda>c. dict_len c > 3) (candidates tw rs))
    \<and> referenced_tweets (counts s') = referenced_tweets (counts s) + int (length rs)
    \<and> unavailable (counts s') = unavailable (counts s)
          + int (length (filter (\<lambda>c. \<not> dict_len c > 3) (candidates tw rs)))
    \<and> merge_retweets s' = merge_retweets s"
  using assms
proof (induction rs arbitrary: s)
  case Nil
  show ?case by (simp add: candidates_def)
next
  case (Cons r rs)
  from Cons.prems obtain d where r: "r = JObj d" "refs_ok d" and rest: "list_all entry_ok rs"
    by (cases r) simp_all
  let ?c = "dict_set ''__twarc'' tw d"
  let ?s1 = "s\<lparr>counts := (counts s)\<lparr>referenced_tweets := referenced_tweets (counts s) + 1\<rparr>\<rparr>"
  let ?s2 = "?s1\<lparr>counts := (counts ?s1)\<lparr>unavailable := unavailable (counts ?s1) + 1\<rparr>\<rparr>"
  have cs: "candidates tw (r # rs) = ?c # candidates tw rs"
    "candidates tw (JObj d # rs) = ?c # candidates tw rs"
    using r by (simp_all add: candidates_def)
  have fc: "format_tweet ?s1 = format_tweet s" "format_tweet ?s2 = format_tweet s"
    by (rule ext, rule format_tweet_config, simp)+
  show ?case
  proof (cases "dict_len ?c > 3")
    case True
    from format_tweet_total[OF refs_ok_candidate[OF r(2)], of ?s1 tw] obtain row where
      row: "format_tweet ?s1 ?c = Inr row" by blast
    from Cons.IH[OF rest, of ?s1] obtain out s' where
      il: "inline_loop ?s1 tw rs = Inr (out, map JObj (candidates tw rs), s')" and
      rows: "map Inr out = map (format_tweet ?s1) (filter (\<lambda>c. dict_len c > 3) (candidates tw rs))" and
      c1: "referenced_tweets (counts s') = referenced_tweets (counts ?s1) + int (length rs)" and
      c2: "unavailable (counts s') = unavailable (counts ?s1)
          + int (length (filter (\<lambda>c. \<not> dict_len c > 3) (candidates tw rs)))" and
      c3: "merge_retweets s' = merge_retweets ?s1"
      by blast
    have "inline_loop s tw (r # rs) = Inr (row # out, map JObj (candidates tw (r # rs)), s')"
      using r True row il by (simp add: Let_def cs)
    moreover have "map Inr (row # out)
        = map (format_tweet s) (filter (\<lambda>c. dict_len c > 3) (candidates tw (r # rs)))"
      using True row[unfolded fc] rows[unfolded fc] by (simp add: cs)
    ultimately show ?thesis
      using c1 c2 c3 True by (simp add: cs)
  next
    case False
    from Cons.IH[OF rest, of ?s2] obtain out s' where
      il: "inline_loop ?s2 tw rs = Inr (out, map JObj (candidates tw rs), s')" and
      rows: "map Inr out = map (format_tweet ?s2) (filter (\<lambda>c. dict_len c > 3) (candidates tw rs))" and
      c1: "referenced_tweets (counts s') = referenced_tweets (counts ?s2) + int (length rs)" and
      c2: "unavailable (counts s') = unavailable (counts ?s2)
          + int (length (filter (\<lambda>c. \<not> dict_len c > 3) (candidates tw rs)))" and
      c3: "merge_retweets s' = merge_retweets ?s2"
      by blast
    have "inline_loop s tw (r # rs) = Inr (out, map JObj (candidates tw (r # rs)), s')"
      using r False il by (simp add: Let_def cs)
    moreover have "map Inr out
        = map (format_tweet s) (filter (\<lambda>c. dict_len c > 3) (candidates tw (r # rs)))"
      using False rows[unfolded fc] by (simp add: cs)
    ultimately show ?thesis
      using c1 c2 c3 False by (simp add: cs)
  qed
qed

lemma refs_ok_list: "map_of tweet ''referenced_tweets'' = Some (JArr rs) \<Longrightarrow> list_all ref_ok rs
    \<Longrightarrow> refs_ok tweet"
  by (simp add: refs_ok_def)

lemma refs_ok_none: "map_of tweet ''referenced_tweets'' = None \<Longrightarrow> refs_ok tweet"
  by (simp add: refs_ok_def)

lemma do_inline_plain:
  assumes "\<not> (dict_has tweet ''referenced_tweets'' \<and> inline_referenced_tweets s)"
    and "refs_ok tweet"
  shows "\<exists>row. do_inline_referenced_tweets s tweet = Inr ([row], tweet, s)
           \<and> format_tweet s tweet = Inr row"
proof -
  from format_tweet_total[OF assms(2), of s] obtain row where "format_tweet s tweet = Inr row"
    by blast
  with assms(1) show ?thesis by (auto simp: do_inline_referenced_tweets_def)
qed

lemma do_inline_expansion:
  assumes refs: "map_of tweet ''referenced_tweets'' = Some (JArr rs)"
    and ok: "list_all ref_ok rs" and eok: "list_all entry_ok rs"
    and on: "inline_referenced_tweets s"
  shows "\<exists>sib row s'.
      do_inline_referenced_tweets s tweet
        = Inr (sib @ [row],
               dict_set ''referenced_tweets''
                 (JArr (map JObj (candidates (get_or_none tweet ''__twarc'') rs))) tweet, s')
    \<and> map Inr sib = map (format_tweet s)
          (filter (\<lambda>c. dict_len c > 3) (candidates (get_or_none tweet ''__twarc'') rs))
    \<and> format_tweet s tweet = Inr row
    \<and> referenced_tweets (counts s') = referenced_tweets (counts s) + int (length rs)
    \<and> unavailable (counts s') = unavailable (counts s)
          + int (length (filter (\<lambda>c. \<not> dict_len c > 3)
                           (candidates (get_or_none tweet ''__twarc'') rs)))"
proof -
  let ?tw = "get_or_none tweet ''__twarc''"
  let ?tweet' = "dict_set ''referenced_tweets'' (JArr (map JObj (candidates ?tw rs))) tweet"
  from inline_loop_expansion[OF eok, of s ?tw] obtain sib s' where
    il: "inline_loop s ?tw rs = Inr (sib, map JObj (candidates ?tw rs), s')" and
    rows: "map Inr sib = map (format_tweet s) (filter (\<lambda>c. dict_len c > 3) (candidates ?tw rs))" and
    c1: "referenced_tweets (counts s') = referenced_tweets (counts s) + int (length rs)" and
    c2: "unavailable (counts s') = unavailable (counts s)
          + int (length (filter (\<lambda>c. \<not> dict_len c > 3) (candidates ?tw rs)))" and
    c3: "merge_retweets s' = merge_retweets s"
    by blast
  from format_tweet_total[OF refs_ok_list[OF refs ok], of s] obtain row where
    row: "format_tweet s tweet = Inr row" by blast
  have "format_tweet s' ?tweet' = format_tweet s ?tweet'"
    using c3 by (rule format_tweet_config)
  also have "\<dots> = format_tweet s tweet"
    using refs ok by (rule format_tweet_twarc_entries)
  finally have row': "format_tweet s' ?tweet' = Inr row" using row by simp
  have g: "dict_has tweet ''referenced_tweets''" "get_or_none tweet ''referenced_tweets'' = JArr rs"
    using refs by (simp_all add: dict_has_def get_or_none_def)
  have "do_inline_referenced_tweets s tweet = Inr (sib @ [row], ?tweet', s')"
    unfolding do_inline_referenced_tweets_def
    using on g il row' by (simp add: store_entries_def Let_def)
  with rows row c1 c2 show ?thesis by blast
qed


section \<open>Reference expansion: rows, counters and the caller's record\<close>

text \<open>
  Claim C6. A record with no reference list, or with a list of well-formed entries each
  of which can be normalized. The generator returns; its last row is the normalized
  parent, whether or not expansion is enabled. With expansion enabled the rows before the
  parent are the normalized candidates with more than three keys, in list order, where a
  candidate is an entry with \<^verbatim>\<open>__twarc\<close> set to the parent's; the referenced-count
  counter grows by the number of entries and the unavailable counter by the number of
  candidates with at most three keys. With expansion disabled the parent is the only row
  and the counters are unchanged.
\<close>

theorem reference_expansion_rows:
  assumes "(map_of tweet ''referenced_tweets'' = None \<and> rs = [])
           \<or> map_of tweet ''referenced_tweets'' = Some (JArr rs)"
    and "list_all ref_ok rs" and "list_all entry_ok rs"
  shows "\<exists>out tweet' s'. do_inline_referenced_tweets s tweet = Inr (out, tweet', s')
     \<and> out \<noteq> [] \<and> Inr (last out) = format_tweet s tweet
     \<and> (inline_referenced_tweets s \<longrightarrow>
           map Inr (butlast out) = map (format_tweet s)
             (filter (\<lambda>c. dict_len c > 3) (candidates (get_or_none tweet ''__twarc'') rs))
         \<and> referenced_tweets (counts s') = referenced_tweets (counts s) + int (length rs)
         \<and> unavailable (counts s') = unavailable (counts s)
              + int (length (filter (\<lambda>c. \<not> dict_len c > 3)
                               (candidates (get_or_none tweet ''__twarc'') rs))))
     \<and> (\<not> inline_referenced_tweets s \<longrightarrow> out = [last out] \<and> counts s' = counts s)"
proof (cases "dict_has tweet ''referenced_tweets'' \<and> inline_referenced_tweets s")
  case True
  with assms(1) have refs: "map_of tweet ''referenced_tweets'' = Some (JArr rs)"
    by (auto simp: dict_has_def)
  from True have on: "inline_referenced_tweets s" by simp
  from do_inline_expansion[OF refs assms(2,3) on] obtain sib row s' where
    r: "do_inline_referenced_tweets s tweet
        = Inr (sib @ [row],
               dict_set ''referenced_tweets''
                 (JArr (map JObj (candidates (get_or_none tweet ''__twarc'') rs))) tweet, s')" and
    rows: "map Inr sib = map (format_tweet s)
          (filter (\<lambda>c. dict_len c > 3) (candidates (get_or_none tweet ''__twarc'') rs))" and
    row: "format_tweet s tweet = Inr row" and
    c1: "referenced_tweets (counts s') = referenced_tweets (counts s) + int (length rs)" and
    c2: "unavailable (counts s') = unavailable (counts s)
          + int (length (filter (\<lambda>c. \<not> dict_len c > 3)
                           (candidates (get_or_none tweet ''__twarc'') rs)))"
    by blast
  have "sib @ [row] \<noteq> []" "last (sib @ [row]) = row" "butlast (sib @ [row]) = sib"
    by simp_all
  with r rows row c1 c2 on show ?thesis by (metis (no_types, lifting))
next
  case False
  from assms(1,2) have ok: "refs_ok tweet"
    by (auto intro: refs_ok_none refs_ok_list)
  from do_inline_plain[OF False ok] obtain row where
    r: "do_inline_referenced_tweets s tweet = Inr ([row], tweet, s)" and
    row: "format_tweet s tweet = Inr row"
    by blast
  have e: "inline_referenced_tweets s \<Longrightarrow> rs = []"
    using False assms(1) by (auto simp: dict_has_def)
  have "inline_referenced_tweets s \<longrightarrow>
           map Inr (butlast [row]) = map (format_tweet s)
             (filter (\<lambda>c. dict_len c > 3) (candidates (get_or_none tweet ''__twarc'') rs))
         \<and> referenced_tweets (counts s) = referenced_tweets (counts s) + int (length rs)
         \<and> unavailable (counts s) = unavailable (counts s)
              + int (length (filter (\<lambda>c. \<not> dict_len c > 3)
                               (candidates (get_or_none tweet ''__twarc'') rs)))"
    using e by (auto simp: candidates_def)
  moreover have "[row] \<noteq> []" "Inr (last [row]) = format_tweet s tweet" "[row] = [last [row]]"
    using row by simp_all
  ultimately show ?thesis using r by blast
qed


theorem reference_expansion_rows_witness:
  "\<exists>out tweet' s'.
     do_inline_referenced_tweets
       ((default_converter ''compliance'')\<lparr>inline_referenced_tweets := True\<rparr>)
       [(''id'', JStr ''1''), (''__twarc'', JObj [(''url'', JStr ''u'')]),
        (''referenced_tweets'', JArr
           [JObj [(''type'', JStr ''retweeted''), (''id'', JStr ''2''),
                  (''author_id'', JStr ''a''), (''text'', JStr ''original'')],
            JObj [(''type'', JStr ''replied_to''), (''id'', JStr ''3'')]])]
       = Inr (out, tweet', s')
   \<and> length out = 2
   \<and> referenced_tweets (counts s') = 2
   \<and> unavailable (counts s') = 1"
proof -
  let ?s = "(default_converter ''compliance'')\<lparr>inline_referenced_tweets := True\<rparr>"
  let ?r1 = "JObj [(''type'', JStr ''retweeted''), (''id'', JStr ''2''),
                  (''author_id'', JStr ''a''), (''text'', JStr ''original'')]"
  let ?r2 = "JObj [(''type'', JStr ''replied_to''), (''id'', JStr ''3'')]"
  let ?tw = "JObj [(''url'', JStr ''u'')]"
  let ?t = "[(''id'', JStr ''1''), (''__twarc'', ?tw), (''referenced_tweets'', JArr [?r1, ?r2])]"
  have 1: "(map_of ?t ''referenced_tweets'' = None \<and> [?r1, ?r2] = [])
           \<or> map_of ?t ''referenced_tweets'' = Some (JArr [?r1, ?r2])" by simp
  have 2: "list_all ref_ok [?r1, ?r2]" by (simp add: dict_has_def)
  have 3: "list_all entry_ok [?r1, ?r2]" by (simp add: refs_ok_def)
  have on: "inline_referenced_tweets ?s" by simp
  have c0: "referenced_tweets (counts ?s) = 0" "unavailable (counts ?s) = 0"
    by (simp_all add: default_converter_def DataFrameConverter_def Let_def init_counts_def)
  have g: "get_or_none ?t ''__twarc'' = ?tw" by (simp add: get_or_none_def)
  have f1: "length (filter (\<lambda>c. dict_len c > 3) (candidates ?tw [?r1, ?r2])) = 1"
    by code_simp
  have f2: "length (filter (\<lambda>c. \<not> dict_len c > 3) (candidates ?tw [?r1, ?r2])) = 1"
    by code_simp
  from reference_expansion_rows[OF 1 2 3, of ?s] obtain out tweet' s' where
    r: "do_inline_referenced_tweets ?s ?t = Inr (out, tweet', s')" and ne: "out \<noteq> []" and
    i: "inline_referenced_tweets ?s \<longrightarrow>
           map Inr (butlast out) = map (format_tweet ?s)
             (filter (\<lambda>c. dict_len c > 3) (candidates (get_or_none ?t ''__twarc'') [?r1, ?r2]))
         \<and> referenced_tweets (counts s') = referenced_tweets (counts ?s) + int (length [?r1, ?r2])
         \<and> unavailable (counts s') = unavailable (counts ?s)
              + int (length (filter (\<lambda>c. \<not> dict_len c > 3)
                               (candidates (get_or_none ?t ''__twarc'') [?r1, ?r2])))"
    by blast
  from i on have
    b: "map Inr (butlast out) = map (format_tweet ?s)
             (filter (\<lambda>c. dict_len c > 3) (candidates (get_or_none ?t ''__twarc'') [?r1, ?r2]))" and
    c1: "referenced_tweets (counts s') = referenced_tweets (counts ?s) + int (length [?r1, ?r2])" and
    c2: "unavailable (counts s') = unavailable (counts ?s)
              + int (length (filter (\<lambda>c. \<not> dict_len c > 3)
                               (candidates (get_or_none ?t ''__twarc'') [?r1, ?r2])))"
    by blast+
  from b have "length (butlast out) = 1"
    unfolding g using f1 by (metis length_map)
  with ne have "length out = 2" by (cases out rule: rev_cases) simp_all
  moreover from c1 c0 have "referenced_tweets (counts s') = 2" by simp
  moreover from c2 c0 f2 have "unavailable (counts s') = 1" unfolding g by simp
  ultimately show ?thesis using r by blast
qed




end
